theory Spec2Isabelle
  imports Complex_Main
begin

section \<open>JavaScript values and numbers\<close>

text \<open>
  References are \<open>undefined\<close>, \<open>null\<close> or an object identity; \<open>Obj n\<close> is the n-th loaded
  texture (or any other object).
\<close>

datatype jsval = Undefined | Null | Obj nat

fun truthy :: "jsval \<Rightarrow> bool" where
  "truthy (Obj n) = True"
| "truthy Undefined = False"
| "truthy Null = False"

text \<open>An array read: out of range yields \<open>undefined\<close>.\<close>

definition js_index :: "jsval list \<Rightarrow> nat \<Rightarrow> jsval" where
  "js_index xs i = (if i < length xs then xs ! i else Undefined)"

text \<open>
  Pixel offsets and scroll positions are exact rationals or NaN, which is what arithmetic
  on \<open>undefined\<close> yields. The program divides by constants only and its numbers stay far
  below the range of a double, so no infinity arises. NaN is absorbing for the arithmetic
  operations, and every comparison with NaN is false. Milliseconds and the balance are
  integers.
\<close>

datatype jsnum = NaN | Number rat

instantiation jsnum :: "{plus, minus, times, abs, ord}"
begin

definition plus_jsnum :: "jsnum \<Rightarrow> jsnum \<Rightarrow> jsnum" where
  "a + b = (case a of NaN \<Rightarrow> NaN
            | Number x \<Rightarrow> (case b of NaN \<Rightarrow> NaN | Number y \<Rightarrow> Number (x + y)))"

definition minus_jsnum :: "jsnum \<Rightarrow> jsnum \<Rightarrow> jsnum" where
  "a - b = (case a of NaN \<Rightarrow> NaN
            | Number x \<Rightarrow> (case b of NaN \<Rightarrow> NaN | Number y \<Rightarrow> Number (x - y)))"

definition times_jsnum :: "jsnum \<Rightarrow> jsnum \<Rightarrow> jsnum" where
  "a * b = (case a of NaN \<Rightarrow> NaN
            | Number x \<Rightarrow> (case b of NaN \<Rightarrow> NaN | Number y \<Rightarrow> Number (x * y)))"

definition abs_jsnum :: "jsnum \<Rightarrow> jsnum" where
  "\<bar>a\<bar> = (case a of NaN \<Rightarrow> NaN | Number x \<Rightarrow> Number \<bar>x\<bar>)"

definition less_jsnum :: "jsnum \<Rightarrow> jsnum \<Rightarrow> bool" where
  "a < b = (case a of NaN \<Rightarrow> False
            | Number x \<Rightarrow> (case b of NaN \<Rightarrow> False | Number y \<Rightarrow> x < y))"

definition less_eq_jsnum :: "jsnum \<Rightarrow> jsnum \<Rightarrow> bool" where
  "a \<le> b = (case a of NaN \<Rightarrow> False
            | Number x \<Rightarrow> (case b of NaN \<Rightarrow> False | Number y \<Rightarrow> x \<le> y))"

instance ..

end

text \<open>The rational a number stands for; used on numbers known not to be NaN.\<close>

fun value_of :: "jsnum \<Rightarrow> rat" where
  "value_of (Number x) = x"
| "value_of NaN = 0"

text \<open>The operator \<open>%\<close> on numbers other than NaN: the quotient is truncated towards zero,
  so the remainder has the sign of the dividend.\<close>

definition js_rem :: "rat \<Rightarrow> rat \<Rightarrow> rat" where
  "js_rem a b = a - b * of_int (if 0 \<le> a / b then \<lfloor>a / b\<rfloor> else \<lceil>a / b\<rceil>)"

text \<open>\<open>Math.floor(Math.random() * n)\<close>, where \<open>rnd k\<close> is the k-th value returned by
  \<open>Math.random()\<close> (a number in the interval from 0 inclusive to 1 exclusive).\<close>

definition floorRandom :: "(nat \<Rightarrow> rat) \<Rightarrow> nat \<Rightarrow> nat \<Rightarrow> nat" where
  "floorRandom rnd k n = nat \<lfloor>rnd k * of_nat n\<rfloor>"

definition randomTexture :: "jsval list \<Rightarrow> (nat \<Rightarrow> rat) \<Rightarrow> nat \<Rightarrow> jsval" where
  "randomTexture ts rnd k = js_index ts (floorRandom rnd k (length ts))"

section \<open>Reel configuration constants\<close>

abbreviation (input) SYMBOL_SIZE :: rat where "SYMBOL_SIZE \<equiv> 160"
abbreviation (input) CELL_HEIGHT :: rat where "CELL_HEIGHT \<equiv> 200"
abbreviation (input) NUM_VISIBLE_SYMBOLS :: nat where "NUM_VISIBLE_SYMBOLS \<equiv> 3"
abbreviation (input) NUM_SYMBOLS_PER_REEL_STRIP :: nat where "NUM_SYMBOLS_PER_REEL_STRIP \<equiv> 10"
abbreviation (input) SPIN_DURATION_BASE :: int where "SPIN_DURATION_BASE \<equiv> 2000"
abbreviation (input) totalStripHeight :: rat where
  "totalStripHeight \<equiv> of_nat NUM_SYMBOLS_PER_REEL_STRIP * CELL_HEIGHT"
abbreviation (input) SPIN_COST :: int where "SPIN_COST \<equiv> 100"

section \<open>Data model\<close>

record symbol =
  y :: jsnum
  texture :: jsval

record reel =
  symbols :: "symbol list"
  position :: jsnum
  previousPosition :: jsnum
  spinTween :: jsval

text \<open>The closure of one \<open>tweenTo\<close> call; \<open>scheduled\<close> says that its \<open>animate\<close> callback
  is registered with \<open>requestAnimationFrame\<close>.\<close>

record tween =
  start :: jsnum
  target :: jsnum
  startTime :: int
  endTime :: int
  time :: int
  scheduled :: bool

text \<open>The closure of one \<open>startReelSpin\<close> call and its promise: the arguments, the counter
  \<open>reelsStopping\<close>, the number of times \<open>resolve\<close> has been called, one tween per reel,
  and whether a \<open>startSpin\<close> call awaits the promise.\<close>

record spin =
  sp_results :: "nat list"
  sp_forceWin :: bool
  reelsStopping :: nat
  resolved :: nat
  tweens :: "tween list"
  awaited :: bool

datatype ui_call =
    UpdateBalanceDisplay int
  | ShowGameMessage string
  | SetSpinButtonsEnabled bool
  | HideWinLossMessage
  | ShowWinLossMessage string bool
  | TriggerFireworksSequence

text \<open>The module-level state of the slot game and of the reel manager, the calls made to
  the UI so far, and the values \<open>Math.random()\<close> returns (\<open>drawn\<close> of them are used up).\<close>

record game =
  slotTextures :: "jsval list"
  balance :: int
  spinning :: bool
  reels :: "reel list"
  spins :: "spin list"
  ui :: "ui_call list"
  random :: "nat \<Rightarrow> rat"
  drawn :: nat

section \<open>Tweening\<close>

definition lerp :: "jsnum \<Rightarrow> jsnum \<Rightarrow> jsnum \<Rightarrow> jsnum" where
  "lerp a b t = a + (b - a) * t"

definition backout :: "rat \<Rightarrow> rat \<Rightarrow> rat" where
  "backout amount t = (let t1 = t - 1 in t1 * t1 * ((amount + 1) * t1 + amount) + 1)"

text \<open>\<open>tweenTo\<close> reads the property and the clock, registers \<open>animate\<close> and ends without a
  \<open>return\<close> statement: the value of the call is \<open>undefined\<close>.\<close>

definition tweenTo :: "jsnum \<Rightarrow> jsnum \<Rightarrow> int \<Rightarrow> int \<Rightarrow> tween \<times> jsval" where
  "tweenTo current tgt tm now =
     (\<lparr>start = current, target = tgt, startTime = now, endTime = now + tm, time = tm,
        scheduled = True\<rparr>, Undefined)"

section \<open>Starting a spin\<close>

text \<open>The computation of the target position in \<open>startReelSpin\<close>, for a reel position
  \<open>pos\<close> other than NaN and a target index \<open>res\<close>.\<close>

definition currentReelPositionNormalized :: "rat \<Rightarrow> rat" where
  "currentReelPositionNormalized pos =
     (let c = js_rem pos totalStripHeight in if c < 0 then c + totalStripHeight else c)"

definition distanceToAlign :: "rat \<Rightarrow> nat \<Rightarrow> rat" where
  "distanceToAlign pos res =
     (let winningSymbolTargetYInStrip = of_nat res * CELL_HEIGHT;
          offsetToCenterVisibleArea = CELL_HEIGHT * 1;
          finalDesiredReelPosition = offsetToCenterVisibleArea - winningSymbolTargetYInStrip;
          d = finalDesiredReelPosition - currentReelPositionNormalized pos
      in if d < 0 then d + totalStripHeight else d)"

definition spinDistance :: "rat \<Rightarrow> nat \<Rightarrow> rat" where
  "spinDistance pos res = 5 * totalStripHeight + distanceToAlign pos res"

definition targetPosition :: "rat \<Rightarrow> nat \<Rightarrow> rat" where
  "targetPosition pos res = pos + spinDistance pos res"

text \<open>
  The same computation as the reel loop of \<open>startReelSpin\<close> performs it, on JavaScript
  numbers: \<open>results[index]\<close> is \<open>undefined\<close> when \<open>results\<close> is too short, and
  \<open>undefined * CELL_HEIGHT\<close> is NaN; \<open>reel.position\<close> may be NaN.
\<close>

definition resultAt :: "nat list \<Rightarrow> nat \<Rightarrow> jsnum" where
  "resultAt results index =
     (if index < length results then Number (of_nat (results ! index)) else NaN)"

definition rem :: "jsnum \<Rightarrow> jsnum \<Rightarrow> jsnum" where
  "rem a b = (case a of NaN \<Rightarrow> NaN
              | Number x \<Rightarrow> (case b of NaN \<Rightarrow> NaN
                             | Number m \<Rightarrow> if m = 0 then NaN else Number (js_rem x m)))"

definition spinTarget :: "jsnum \<Rightarrow> nat list \<Rightarrow> nat \<Rightarrow> jsnum" where
  "spinTarget pos results index =
     (let winningSymbolTargetYInStrip = resultAt results index * Number CELL_HEIGHT;
          offsetToCenterVisibleArea = Number (CELL_HEIGHT * 1);
          finalDesiredReelPosition = offsetToCenterVisibleArea - winningSymbolTargetYInStrip;
          minFullSpins = Number 5;
          spinDistance0 = minFullSpins * Number totalStripHeight;
          c = rem pos (Number totalStripHeight);
          currentReelPositionNormalized = (if c < Number 0 then c + Number totalStripHeight else c);
          d = finalDesiredReelPosition - currentReelPositionNormalized;
          distanceToAlign = (if d < Number 0 then d + Number totalStripHeight else d);
          spinDistance = spinDistance0 + distanceToAlign
      in pos + spinDistance)"

text \<open>
  \<open>startReelSpin results forceWin now g\<close>: \<open>now i\<close> is the clock reading when the tween
  of reel \<open>i\<close> is created. Every reel gets a tween and has \<open>spinTween\<close> set to the value of
  the \<open>tweenTo\<close> call. Nothing awaits the new promise yet.
\<close>

definition startReelSpin :: "nat list \<Rightarrow> bool \<Rightarrow> (nat \<Rightarrow> int) \<Rightarrow> game \<Rightarrow> game" where
  "startReelSpin results forceWin now g =
     (let call = (\<lambda>index.
            tweenTo (position (reels g ! index))
              (spinTarget (position (reels g ! index)) results index)
              (SPIN_DURATION_BASE + int index * 500) (now index));
          indices = [0 ..< length (reels g)]
      in g\<lparr>reels := map (\<lambda>index. (reels g ! index)\<lparr>spinTween := snd (call index)\<rparr>) indices,
            spins := spins g @
              [\<lparr>sp_results = results, sp_forceWin = forceWin, reelsStopping = 0,
                resolved = 0, tweens = map (\<lambda>index. fst (call index)) indices,
                awaited = False\<rparr>]\<rparr>)"

section \<open>The win line\<close>

fun middleSymbolTexture :: "symbol list \<Rightarrow> jsval" where
  "middleSymbolTexture [] = Null"
| "middleSymbolTexture (s # ss) =
     (if \<bar>y s - Number (CELL_HEIGHT * 1 + CELL_HEIGHT / 2)\<bar> < Number 5 then texture s
      else middleSymbolTexture ss)"

definition getVisibleTexturesAtWinLine :: "reel list \<Rightarrow> jsval list" where
  "getVisibleTexturesAtWinLine rs = map (\<lambda>r. middleSymbolTexture (symbols r)) rs"

section \<open>The ticker callback\<close>

text \<open>One symbol of a reel with \<open>spinTween = tw\<close>, moved by \<open>deltaY\<close>; \<open>k\<close> counts the
  random numbers used so far.\<close>

definition tickSymbol ::
  "jsval list \<Rightarrow> (nat \<Rightarrow> rat) \<Rightarrow> jsval \<Rightarrow> jsnum \<Rightarrow> symbol \<Rightarrow> nat \<Rightarrow> symbol \<times> nat" where
  "tickSymbol ts rnd tw deltaY s k =
     (let y1 = y s + deltaY in
      if y1 + Number (CELL_HEIGHT / 2) < Number 0 then
        (if truthy tw
         then (s\<lparr>y := y1 + Number totalStripHeight, texture := randomTexture ts rnd k\<rparr>, Suc k)
         else (s\<lparr>y := y1 + Number totalStripHeight\<rparr>, k))
      else if y1 - Number (CELL_HEIGHT / 2) > Number (CELL_HEIGHT * of_nat NUM_VISIBLE_SYMBOLS) then
        (if truthy tw
         then (s\<lparr>y := y1 - Number totalStripHeight, texture := randomTexture ts rnd k\<rparr>, Suc k)
         else (s\<lparr>y := y1 - Number totalStripHeight\<rparr>, k))
      else (s\<lparr>y := y1\<rparr>, k))"

fun tickSymbols ::
  "jsval list \<Rightarrow> (nat \<Rightarrow> rat) \<Rightarrow> jsval \<Rightarrow> jsnum \<Rightarrow> symbol list \<Rightarrow> nat \<Rightarrow> symbol list \<times> nat" where
  "tickSymbols ts rnd tw deltaY [] k = ([], k)"
| "tickSymbols ts rnd tw deltaY (s # ss) k =
     (let (s', k') = tickSymbol ts rnd tw deltaY s k;
          (ss', k'') = tickSymbols ts rnd tw deltaY ss k'
      in (s' # ss', k''))"

definition tickReel :: "jsval list \<Rightarrow> (nat \<Rightarrow> rat) \<Rightarrow> reel \<Rightarrow> nat \<Rightarrow> reel \<times> nat" where
  "tickReel ts rnd r k =
     (let deltaY = position r - previousPosition r;
          (ss, k') = tickSymbols ts rnd (spinTween r) deltaY (symbols r) k
      in (r\<lparr>previousPosition := position r, symbols := ss\<rparr>, k'))"

fun tickReels :: "jsval list \<Rightarrow> (nat \<Rightarrow> rat) \<Rightarrow> reel list \<Rightarrow> nat \<Rightarrow> reel list \<times> nat" where
  "tickReels ts rnd [] k = ([], k)"
| "tickReels ts rnd (r # rs) k =
     (let (r', k') = tickReel ts rnd r k;
          (rs', k'') = tickReels ts rnd rs k'
      in (r' # rs', k''))"

definition ticker :: "game \<Rightarrow> game" where
  "ticker g =
     (let (rs, k) = tickReels (slotTextures g) (random g) (reels g) (drawn g)
      in g\<lparr>reels := rs, drawn := k\<rparr>)"

section \<open>Outcome evaluation\<close>

definition allMatch :: "jsval list \<Rightarrow> bool" where
  "allMatch actualVisibleTextures =
     (let firstActualTexture = js_index actualVisibleTextures 0
      in list_all (\<lambda>t. t \<noteq> Null \<and> t = firstActualTexture) actualVisibleTextures)"

definition checkWin :: "game \<Rightarrow> game" where
  "checkWin g =
     (if allMatch (getVisibleTexturesAtWinLine (reels g)) then
        let winAmount = 500; b = balance g + winAmount
        in g\<lparr>balance := b,
              ui := ui g @ [UpdateBalanceDisplay b, ShowWinLossMessage ''GANHASTE 500!'' True,
                            TriggerFireworksSequence]\<rparr>
      else g\<lparr>ui := ui g @ [ShowWinLossMessage ''AZAR!'' False]\<rparr>)"

text \<open>What \<open>startSpin\<close> does after \<open>await\<close>, once the promise is resolved.\<close>

definition afterSpin :: "game \<Rightarrow> game" where
  "afterSpin g =
     (let g1 = checkWin (g\<lparr>spinning := False\<rparr>)
      in g1\<lparr>ui := ui g1 @ [SetSpinButtonsEnabled True]\<rparr>)"

section \<open>Tween callbacks\<close>

text \<open>The indices of the symbols inside the visible area, sorted by their offset (the
  sort is stable). A symbol whose offset is NaN fails both tests of the filter.\<close>

definition visibleSymbols :: "symbol list \<Rightarrow> nat list" where
  "visibleSymbols ss =
     sort_key (\<lambda>i. value_of (y (ss ! i)))
       (filter (\<lambda>i. y (ss ! i) + Number (SYMBOL_SIZE / 2) > Number 0
                  \<and> y (ss ! i) - Number (SYMBOL_SIZE / 2)
                      < Number (of_nat NUM_VISIBLE_SYMBOLS * CELL_HEIGHT))
          [0 ..< length ss])"

text \<open>The forced-win adjustment of a reel's symbols, with
  \<open>winningTexture = _slotTextures[results[index]]\<close>.\<close>

definition forceWinAdjust ::
  "jsval list \<Rightarrow> (nat \<Rightarrow> rat) \<Rightarrow> jsval \<Rightarrow> symbol list \<Rightarrow> nat \<Rightarrow> symbol list \<times> nat" where
  "forceWinAdjust ts rnd winningTexture ss k =
     (let vis = visibleSymbols ss
      in if NUM_VISIBLE_SYMBOLS \<le> length vis then
           let ss1 = ss[vis ! 1 := (ss ! (vis ! 1))\<lparr>texture := winningTexture\<rparr>];
               otherTextures = filter (\<lambda>t. t \<noteq> winningTexture) ts;
               ss2 = ss1[vis ! 0 := (ss1 ! (vis ! 0))
                         \<lparr>texture := js_index otherTextures
                                       (floorRandom rnd k (length otherTextures))\<rparr>];
               ss3 = ss2[vis ! 2 := (ss2 ! (vis ! 2))
                         \<lparr>texture := js_index otherTextures
                                       (floorRandom rnd (Suc k) (length otherTextures))\<rparr>]
           in (ss3, Suc (Suc k))
         else (ss, k))"

text \<open>\<open>_slotTextures[results[index]]\<close>; an index that is \<open>undefined\<close> selects nothing.\<close>

definition resultTexture :: "jsval list \<Rightarrow> nat list \<Rightarrow> nat \<Rightarrow> jsval" where
  "resultTexture ts results index =
     (if index < length results then js_index ts (results ! index) else Undefined)"

text \<open>The completion callback of the tween of reel \<open>index\<close> in the spin closure \<open>c\<close>.
  A promise is settled by the first \<open>resolve\<close> only; if a \<open>startSpin\<close> call awaits it,
  that call continues then.\<close>

definition onComplete :: "nat \<Rightarrow> nat \<Rightarrow> game \<Rightarrow> game" where
  "onComplete c index g =
     (let sp = spins g ! c;
          sp1 = sp\<lparr>reelsStopping := Suc (reelsStopping sp)\<rparr>;
          r = (reels g ! index)\<lparr>spinTween := Null\<rparr>;
          (ss, k) = (if sp_forceWin sp
                     then forceWinAdjust (slotTextures g) (random g)
                            (resultTexture (slotTextures g) (sp_results sp) index)
                            (symbols r) (drawn g)
                     else (symbols r, drawn g));
          g1 = g\<lparr>reels := (reels g)[index := r\<lparr>symbols := ss\<rparr>], drawn := k\<rparr>
      in if reelsStopping sp1 = length (reels g1)
         then (let g2 = g1\<lparr>spins := (spins g1)[c := sp1\<lparr>resolved := Suc (resolved sp1)\<rparr>]\<rparr>
               in if resolved sp1 = 0 \<and> awaited sp1 then afterSpin g2 else g2)
         else g1\<lparr>spins := (spins g1)[c := sp1]\<rparr>)"

text \<open>The \<open>animate\<close> callback of the tween of reel \<open>index\<close> in the spin closure \<open>c\<close> is
  registered with \<open>requestAnimationFrame\<close>.\<close>

definition registered :: "nat \<Rightarrow> nat \<Rightarrow> game \<Rightarrow> bool" where
  "registered c index g =
     (c < length (spins g) \<and> index < length (tweens (spins g ! c))
      \<and> index < length (reels g) \<and> scheduled (tweens (spins g ! c) ! index))"

text \<open>That callback, run when the clock reads \<open>now\<close>. A callback that is not registered
  does not run.\<close>

definition animate :: "nat \<Rightarrow> nat \<Rightarrow> int \<Rightarrow> game \<Rightarrow> game" where
  "animate c index now g =
     (if registered c index g then
        let sp = spins g ! c; tw = tweens sp ! index; r = reels g ! index
        in if now < endTime tw then
             let t = of_int (now - startTime tw) / of_int (time tw)
             in g\<lparr>reels := (reels g)[index :=
                     r\<lparr>position := lerp (start tw) (target tw) (Number (backout (1 / 2) t))\<rparr>]\<rparr>
           else
             onComplete c index
               (g\<lparr>reels := (reels g)[index := r\<lparr>position := target tw\<rparr>],
                  spins := (spins g)[c := sp\<lparr>tweens := (tweens sp)[index :=
                             tw\<lparr>scheduled := False\<rparr>]\<rparr>]\<rparr>)
      else g)"

section \<open>The spin session\<close>

text \<open>\<open>startSpin\<close> up to its \<open>await\<close>: the promise returned by \<open>startReelSpin\<close> is the one
  this call awaits.\<close>

definition startSpin :: "bool \<Rightarrow> (nat \<Rightarrow> int) \<Rightarrow> game \<Rightarrow> game" where
  "startSpin forceWin now g =
     (if spinning g then g
      else if balance g < SPIN_COST then
        g\<lparr>ui := ui g @ [ShowGameMessage ''Saldo insuficiente para girar!'']\<rparr>
      else
        let b = balance g - SPIN_COST;
            g1 = g\<lparr>balance := b, spinning := True,
                   ui := ui g @ [UpdateBalanceDisplay b, SetSpinButtonsEnabled False,
                                 HideWinLossMessage]\<rparr>;
            n = length (slotTextures g);
            k = drawn g;
            results = (if forceWin
                       then replicate 3 (floorRandom (random g) k n)
                       else map (\<lambda>i. floorRandom (random g) (k + i) n) [0 ..< 3]);
            g2 = g1\<lparr>drawn := (if forceWin then k + 1 else k + 3)\<rparr>;
            g3 = startReelSpin results forceWin now g2;
            c = length (spins g2)
        in g3\<lparr>spins := (spins g3)[c := (spins g3 ! c)\<lparr>awaited := True\<rparr>]\<rparr>)"

section \<open>Initial state and runs\<close>

definition initReel :: "jsval list \<Rightarrow> (nat \<Rightarrow> rat) \<Rightarrow> nat \<Rightarrow> reel" where
  "initReel ts rnd i =
     \<lparr>symbols = map (\<lambda>j. \<lparr>y = Number (of_nat j * CELL_HEIGHT + CELL_HEIGHT / 2),
                          texture = randomTexture ts rnd (i * NUM_SYMBOLS_PER_REEL_STRIP + j)\<rparr>)
                   [0 ..< NUM_SYMBOLS_PER_REEL_STRIP],
      position = Number 0, previousPosition = Number 0, spinTween = Null\<rparr>"

definition initSlotGame :: "jsval list \<Rightarrow> (nat \<Rightarrow> rat) \<Rightarrow> game" where
  "initSlotGame ts rnd =
     \<lparr>slotTextures = ts, balance = 1000, spinning = False,
      reels = map (initReel ts rnd) [0 ..< 3], spins = [],
      ui = [UpdateBalanceDisplay 1000], random = rnd,
      drawn = 3 * NUM_SYMBOLS_PER_REEL_STRIP\<rparr>"

datatype event = Ticker | Animate nat nat int

fun step :: "event \<Rightarrow> game \<Rightarrow> game" where
  "step Ticker g = ticker g"
| "step (Animate c index now) g = animate c index now g"

fun run :: "event list \<Rightarrow> game \<Rightarrow> game" where
  "run [] g = g"
| "run (e # es) g = run es (step e g)"

section \<open>Settled reels and smooth runs\<close>

text \<open>
  A reel is aligned up to \<open>eps\<close> when it has its ten symbols, each within one wrap of the
  visible window and at an offset that differs by at most \<open>eps\<close> from its initial offset
  plus the scroll position the ticker has applied (\<open>previousPosition\<close>) plus a whole number
  of strip heights. The tolerance \<open>eps\<close> stands for the rounding error that floating-point
  additions leave in the offsets.
\<close>

definition slotAligned :: "rat \<Rightarrow> reel \<Rightarrow> nat \<Rightarrow> bool" where
  "slotAligned eps r j =
     (case y (symbols r ! j) of
        NaN \<Rightarrow> False
      | Number v \<Rightarrow>
          (case previousPosition r of
             NaN \<Rightarrow> False
           | Number p \<Rightarrow>
               (let off = v - (of_nat j * CELL_HEIGHT + CELL_HEIGHT / 2) - p
                in - 1300 \<le> v \<and> v \<le> 1900
                   \<and> \<bar>off - totalStripHeight * of_int (round (off / totalStripHeight))\<bar> \<le> eps)))"

definition aligned :: "rat \<Rightarrow> reel \<Rightarrow> bool" where
  "aligned eps r = (length (symbols r) = NUM_SYMBOLS_PER_REEL_STRIP
                    \<and> list_all (slotAligned eps r) [0 ..< NUM_SYMBOLS_PER_REEL_STRIP])"

text \<open>A game is settled up to \<open>eps\<close> when no tween is in flight and every reel is aligned
  up to \<open>eps\<close> and has a position other than NaN.\<close>

definition settled :: "rat \<Rightarrow> game \<Rightarrow> bool" where
  "settled eps g = (list_all (\<lambda>sp. list_all (\<lambda>tw. \<not> scheduled tw) (tweens sp)) (spins g)
                    \<and> list_all (\<lambda>r. aligned eps r \<and> position r \<noteq> NaN) (reels g))"

text \<open>A run is smooth when no ticker callback finds a reel more than one strip height
  away from the position it applied last.\<close>

fun smooth :: "event list \<Rightarrow> game \<Rightarrow> bool" where
  "smooth [] g = True"
| "smooth (e # es) g =
     ((e = Ticker \<longrightarrow>
         list_all (\<lambda>r. \<bar>position r - previousPosition r\<bar> \<le> Number totalStripHeight) (reels g))
      \<and> smooth es (step e g))"

text \<open>The spin closure \<open>c\<close> has counted exactly the tweens that have completed, and has
  called \<open>resolve\<close> once if that is all of them and never otherwise.\<close>

definition counted :: "nat \<Rightarrow> game \<Rightarrow> bool" where
  "counted c g =
     (c < length (spins g) \<and> length (tweens (spins g ! c)) = length (reels g)
      \<and> reelsStopping (spins g ! c)
          = length (filter (\<lambda>tw. \<not> scheduled tw) (tweens (spins g ! c)))
      \<and> resolved (spins g ! c)
          = (if reelsStopping (spins g ! c) = length (reels g) then 1 else 0))"

text \<open>The spin closure \<open>c\<close> is the latest one and not forced, the earlier ones have no
  tween in flight, and every reel is aligned up to \<open>eps\<close>, is animated towards \<open>tgt i\<close> and
  stands there once its tween has completed.\<close>

definition tracking :: "rat \<Rightarrow> nat \<Rightarrow> (nat \<Rightarrow> jsnum) \<Rightarrow> game \<Rightarrow> bool" where
  "tracking eps c tgt g =
     (length (spins g) = Suc c
      \<and> (\<forall>c'<c. list_all (\<lambda>tw. \<not> scheduled tw) (tweens (spins g ! c')))
      \<and> \<not> sp_forceWin (spins g ! c)
      \<and> length (tweens (spins g ! c)) = length (reels g)
      \<and> (\<forall>i<length (reels g).
            aligned eps (reels g ! i)
          \<and> target (tweens (spins g ! c) ! i) = tgt i
          \<and> (\<not> scheduled (tweens (spins g ! c) ! i) \<longrightarrow> position (reels g ! i) = tgt i)))"

text \<open>The symbols of reel \<open>i\<close> have lost their offsets.\<close>

definition blank :: "nat \<Rightarrow> game \<Rightarrow> bool" where
  "blank i g = (i < length (reels g) \<and> list_all (\<lambda>s. y s = NaN) (symbols (reels g ! i)))"

section \<open>Sample states and runs\<close>

text \<open>The five symbol images, a sequence of random numbers under which the j-th symbol
  of every reel starts with texture \<open>(j + 1) mod 5\<close>, and the game after
  \<open>initSlotGame\<close>.\<close>

definition loadedTextures :: "jsval list" where
  "loadedTextures = map Obj [0 ..< 5]"

definition sampleRandom :: "nat \<Rightarrow> rat" where
  "sampleRandom k = of_nat (Suc k mod 5) / 5"

definition freshGame :: game where
  "freshGame = initSlotGame loadedTextures sampleRandom"

text \<open>The game after a click on the spin button at clock reading 0: the targets drawn
  are 1, 2 and 3.\<close>

definition spinningGame :: game where
  "spinningGame = startSpin False (\<lambda>i. 0) freshGame"

text \<open>Frames in which the ticker runs before the three tween callbacks.\<close>

definition frame :: "int \<Rightarrow> event list" where
  "frame now = [Ticker, Animate 0 0 now, Animate 0 1 now, Animate 0 2 now]"

definition smoothRun :: "event list" where
  "smoothRun = concat (map frame [50, 100, 150, 200, 250, 300, 400, 500, 600, 800, 1000,
                                  1500, 2000, 2500, 2990, 3000]) @ [Ticker]"

text \<open>A run with a single frame in the middle of the spin of reel 0, as after a stall of
  the browser tab.\<close>

definition jankyRun :: "event list" where
  "jankyRun = [Animate 0 0 1000, Ticker, Animate 0 0 2000, Animate 0 1 2500, Animate 0 2 3000]"

text \<open>The reel manager after \<open>startReelSpin\<close> with the targets 1, 2 and 3, and after
  \<open>startReelSpin\<close> with two targets for the three reels.\<close>

definition startedGame :: game where
  "startedGame = startReelSpin [1, 2, 3] False (\<lambda>i. 0) freshGame"

definition shortGame :: game where
  "shortGame = startReelSpin [1, 2] False (\<lambda>i. 0) freshGame"

section \<open>Arithmetic with NaN\<close>

lemma jsnum_plus [simp]:
  "Number a + Number b = Number (a + b)" "NaN + x = NaN" "x + NaN = NaN"
  by (simp_all add: plus_jsnum_def split: jsnum.splits)

lemma jsnum_minus [simp]:
  "Number a - Number b = Number (a - b)" "NaN - x = NaN" "x - NaN = NaN"
  by (simp_all add: minus_jsnum_def split: jsnum.splits)

lemma jsnum_times [simp]:
  "Number a * Number b = Number (a * b)" "NaN * x = NaN" "x * NaN = NaN"
  by (simp_all add: times_jsnum_def split: jsnum.splits)

lemma jsnum_abs [simp]: "\<bar>Number a\<bar> = Number \<bar>a\<bar>" "\<bar>NaN\<bar> = NaN"
  by (simp_all add: abs_jsnum_def)

lemma jsnum_less [simp]:
  "Number a < Number b \<longleftrightarrow> a < b" "\<not> NaN < x" "\<not> x < NaN"
  by (simp_all add: less_jsnum_def split: jsnum.splits)

lemma jsnum_less_eq [simp]:
  "Number a \<le> Number b \<longleftrightarrow> a \<le> b" "\<not> NaN \<le> x" "\<not> x \<le> NaN"
  by (simp_all add: less_eq_jsnum_def split: jsnum.splits)

section \<open>Arithmetic of the spin target\<close>

lemma js_rem_multiple: "\<exists>k::int. js_rem a b = a - b * of_int k"
  unfolding js_rem_def by blast

lemma js_rem_bounds:
  assumes "0 < b"
  shows "- b < js_rem a b \<and> js_rem a b < b"
proof -
  define x where "x = a / b"
  have a: "a = b * x" using assms by (simp add: x_def)
  show ?thesis
  proof (cases "0 \<le> x")
    case True
    define f where "f = x - of_int \<lfloor>x\<rfloor>"
    have r: "js_rem a b = b * f"
      using True by (simp add: js_rem_def x_def[symmetric] a f_def algebra_simps)
    have f: "0 \<le> f" "f < 1" unfolding f_def by linarith+
    have "0 \<le> b * f" using f(1) assms by simp
    moreover have "b * f < b" using mult_strict_left_mono[OF f(2) assms] by simp
    ultimately show ?thesis using r assms by linarith
  next
    case False
    define f where "f = x - of_int \<lceil>x\<rceil>"
    have r: "js_rem a b = b * f"
      using False by (simp add: js_rem_def x_def[symmetric] a f_def algebra_simps)
    have f: "f \<le> 0" "- 1 < f" unfolding f_def by linarith+
    have "b * f \<le> 0" using f(1) assms by (simp add: mult_le_0_iff)
    moreover have "- b < b * f" using mult_strict_left_mono[OF f(2) assms] by simp
    ultimately show ?thesis using r assms by linarith
  qed
qed

lemma normalized_range:
  "0 \<le> currentReelPositionNormalized p \<and> currentReelPositionNormalized p < 2000"
  using js_rem_bounds[of 2000 p] by (simp add: currentReelPositionNormalized_def Let_def)

lemma normalized_multiple: "\<exists>k::int. currentReelPositionNormalized p = p - 2000 * of_int k"
proof -
  obtain q :: int where q: "js_rem p 2000 = p - 2000 * of_int q"
    using js_rem_multiple by blast
  show ?thesis
  proof (cases "js_rem p 2000 < 0")
    case True
    then have "currentReelPositionNormalized p = p - 2000 * of_int (q - 1)"
      using q by (simp add: currentReelPositionNormalized_def)
    then show ?thesis by blast
  next
    case False
    then have "currentReelPositionNormalized p = p - 2000 * of_int q"
      using q by (simp add: currentReelPositionNormalized_def)
    then show ?thesis by blast
  qed
qed

lemma distanceToAlign_multiple:
  "\<exists>k::int. distanceToAlign p t = 200 - of_nat t * 200 - p + 2000 * of_int k"
proof -
  obtain q :: int where q: "currentReelPositionNormalized p = p - 2000 * of_int q"
    using normalized_multiple by blast
  let ?d = "200 - of_nat t * 200 - currentReelPositionNormalized p"
  show ?thesis
  proof (cases "?d < 0")
    case True
    then have "distanceToAlign p t = 200 - of_nat t * 200 - p + 2000 * of_int (q + 1)"
      using q by (simp add: distanceToAlign_def)
    then show ?thesis by blast
  next
    case False
    then have "distanceToAlign p t = 200 - of_nat t * 200 - p + 2000 * of_int q"
      using q by (simp add: distanceToAlign_def)
    then show ?thesis by blast
  qed
qed

lemma targetPosition_multiple:
  "\<exists>k::int. targetPosition p t = 200 - of_nat t * 200 + 2000 * of_int k"
proof -
  obtain q :: int where q: "distanceToAlign p t = 200 - of_nat t * 200 - p + 2000 * of_int q"
    using distanceToAlign_multiple by blast
  have "targetPosition p t = 200 - of_nat t * 200 + 2000 * of_int (q + 5)"
    using q by (simp add: targetPosition_def spinDistance_def algebra_simps)
  then show ?thesis by blast
qed

text \<open>Within the ten strip indices the total distance is positive, although it may stay
  below five strip heights.\<close>

lemma spinDistance_positive:
  assumes "t \<le> 9"
  shows "8400 < spinDistance p t"
proof -
  have "(of_nat t :: rat) \<le> 9"
    using assms by (metis of_nat_le_iff of_nat_numeral)
  then show ?thesis
    using normalized_range[of p] by (simp add: spinDistance_def distanceToAlign_def Let_def)
qed

section \<open>Claims about the spin target\<close>

text \<open>
  C10. For every scroll position \<open>p\<close> and every target index \<open>t\<close>, the scroll target
  computed at spin start differs from \<open>cellHeight - t * cellHeight\<close> by a whole number of
  strip heights, whatever the sign of the alignment distance.
\<close>

theorem targetPosition_congruent:
  "\<exists>k::int. targetPosition p t - (CELL_HEIGHT - of_nat t * CELL_HEIGHT)
             = of_int k * totalStripHeight"
proof -
  obtain q :: int where "targetPosition p t = 200 - of_nat t * 200 + 2000 * of_int q"
    using targetPosition_multiple by blast
  then have "targetPosition p t - (200 - of_nat t * 200) = of_int q * (of_nat 10 * 200)"
    by simp
  then show ?thesis by blast
qed

text \<open>
  C2. The reel at position 11800 (where a first spin from 0 to strip index 2 stops), sent to
  strip index 3: the alignment distance is still negative after the single correction by
  one strip height, and the scroll distance is 9800, less than the five strip heights
  \<open>minFullSpins\<close> stands for.
\<close>

theorem spinDistance_below_minFullSpins:
  "targetPosition 0 2 = 11800 \<and> distanceToAlign 11800 3 = - 200
   \<and> spinDistance 11800 3 = 9800 \<and> spinDistance 11800 3 < 5 * totalStripHeight"
  by code_simp

section \<open>Evaluation\<close>

lemma floor_rat_numeral: "\<lfloor>numeral a / numeral b :: rat\<rfloor> = numeral a div numeral b"
  by (metis floor_divide_of_int_eq of_int_numeral)

lemma floor_rat_fractions:
  "\<lfloor>1 / numeral b :: rat\<rfloor> = 1 div numeral b"
  "\<lfloor>- (numeral a / numeral b) :: rat\<rfloor> = - numeral a div numeral b"
  "\<lfloor>- (1 / numeral b) :: rat\<rfloor> = - 1 div numeral b"
proof -
  show "\<lfloor>1 / numeral b :: rat\<rfloor> = 1 div numeral b"
    using floor_divide_of_int_eq[of 1 "numeral b", where ?'a = rat] by simp
  show "\<lfloor>- (numeral a / numeral b) :: rat\<rfloor> = - numeral a div numeral b"
    using floor_divide_of_int_eq[of "- numeral a" "numeral b", where ?'a = rat] by simp
  show "\<lfloor>- (1 / numeral b) :: rat\<rfloor> = - 1 div numeral b"
    using floor_divide_of_int_eq[of "- 1" "numeral b", where ?'a = rat] by simp
qed

lemma upt_lists:
  "[0..<10] = [0, 1, 2, 3, 4, 5, 6, 7, 8, 9]" "[0..<5] = [0, 1, 2, 3, 4]" "[0..<3] = [0, 1, 2]"
  by code_simp+

lemmas eval_defs =
  loadedTextures_def sampleRandom_def freshGame_def spinningGame_def smoothRun_def
  jankyRun_def frame_def initSlotGame_def initReel_def startSpin_def startReelSpin_def
  randomTexture_def floorRandom_def js_index_def js_rem_def tweenTo_def spinTarget_def resultAt_def rem_def
  targetPosition_def spinDistance_def distanceToAlign_def currentReelPositionNormalized_def
  ticker_def tickReel_def tickSymbol_def animate_def registered_def onComplete_def
  resultTexture_def afterSpin_def checkWin_def allMatch_def getVisibleTexturesAtWinLine_def
  lerp_def backout_def Let_def upt_lists floor_rat_numeral floor_rat_fractions startedGame_def shortGame_def

section \<open>Ticker\<close>

lemma tickSymbols_Cons:
  "tickSymbols ts rnd tw d (s # ss) k =
     (fst (tickSymbol ts rnd tw d s k)
        # fst (tickSymbols ts rnd tw d ss (snd (tickSymbol ts rnd tw d s k))),
      snd (tickSymbols ts rnd tw d ss (snd (tickSymbol ts rnd tw d s k))))"
  by (simp add: case_prod_beta)

lemma tickReels_Cons:
  "tickReels ts rnd (r # rs) k =
     (fst (tickReel ts rnd r k) # fst (tickReels ts rnd rs (snd (tickReel ts rnd r k))),
      snd (tickReels ts rnd rs (snd (tickReel ts rnd r k))))"
  by (simp add: case_prod_beta)

lemma tickSymbol_mono: "k \<le> snd (tickSymbol ts rnd tw d s k)"
  by (simp add: tickSymbol_def Let_def)

lemma tickSymbols_length [simp]:
  "length (fst (tickSymbols ts rnd tw d ss k)) = length ss"
  by (induction ss arbitrary: k) (simp_all add: tickSymbols_Cons del: tickSymbols.simps(2))

lemma tickSymbols_mono: "k \<le> snd (tickSymbols ts rnd tw d ss k)"
proof (induction ss arbitrary: k)
  case Nil
  then show ?case by simp
next
  case (Cons s ss)
  have "k \<le> snd (tickSymbol ts rnd tw d s k)" by (rule tickSymbol_mono)
  also have "\<dots> \<le> snd (tickSymbols ts rnd tw d ss (snd (tickSymbol ts rnd tw d s k)))"
    by (rule Cons.IH)
  finally show ?case by (simp add: tickSymbols_Cons del: tickSymbols.simps(2))
qed

lemma tickSymbols_nth:
  "j < length ss \<Longrightarrow>
   \<exists>m. k \<le> m \<and> fst (tickSymbols ts rnd tw d ss k) ! j = fst (tickSymbol ts rnd tw d (ss ! j) m)
      \<and> snd (tickSymbol ts rnd tw d (ss ! j) m) \<le> snd (tickSymbols ts rnd tw d ss k)"
proof (induction ss arbitrary: k j)
  case Nil
  then show ?case by simp
next
  case (Cons s ss)
  let ?k1 = "snd (tickSymbol ts rnd tw d s k)"
  have k1: "k \<le> ?k1" by (rule tickSymbol_mono)
  show ?case
  proof (cases j)
    case 0
    have "?k1 \<le> snd (tickSymbols ts rnd tw d ss ?k1)" by (rule tickSymbols_mono)
    then show ?thesis
      using 0 by (intro exI[of _ k]) (simp add: tickSymbols_Cons del: tickSymbols.simps(2))
  next
    case (Suc j')
    then have "j' < length ss" using Cons.prems by simp
    from Cons.IH[OF this, of ?k1] obtain m where
      "?k1 \<le> m"
      "fst (tickSymbols ts rnd tw d ss ?k1) ! j' = fst (tickSymbol ts rnd tw d (ss ! j') m)"
      "snd (tickSymbol ts rnd tw d (ss ! j') m) \<le> snd (tickSymbols ts rnd tw d ss ?k1)"
      by blast
    then show ?thesis
      using Suc k1 by (intro exI[of _ m]) (simp add: tickSymbols_Cons del: tickSymbols.simps(2))
  qed
qed

lemma tickSymbols_falsy:
  "\<not> truthy tw \<Longrightarrow>
   tickSymbols ts rnd tw d ss k = (map (\<lambda>s. fst (tickSymbol ts rnd tw d s k)) ss, k)"
  by (induction ss) (simp_all add: tickSymbol_def Let_def)

lemma tickReels_length [simp]: "length (fst (tickReels ts rnd rs k)) = length rs"
  by (induction rs arbitrary: k) (simp_all add: tickReels_Cons del: tickReels.simps(2))

lemma tickReels_nth:
  "i < length rs \<Longrightarrow> \<exists>m. fst (tickReels ts rnd rs k) ! i = fst (tickReel ts rnd (rs ! i) m)"
proof (induction rs arbitrary: k i)
  case Nil
  then show ?case by simp
next
  case (Cons r rs)
  show ?case
  proof (cases i)
    case 0
    then show ?thesis
      by (intro exI[of _ k]) (simp add: tickReels_Cons del: tickReels.simps(2))
  next
    case (Suc i')
    then have "i' < length rs" using Cons.prems by simp
    from Cons.IH[OF this] show ?thesis
      using Suc by (simp add: tickReels_Cons del: tickReels.simps(2))
  qed
qed

lemma reels_ticker: "reels (ticker g) = fst (tickReels (slotTextures g) (random g) (reels g) (drawn g))"
  by (simp add: ticker_def case_prod_beta)

lemma length_reels_ticker [simp]: "length (reels (ticker g)) = length (reels g)"
  by (simp add: reels_ticker)

lemma reels_ticker_nth:
  "i < length (reels g) \<Longrightarrow>
   \<exists>m. reels (ticker g) ! i = fst (tickReel (slotTextures g) (random g) (reels g ! i) m)"
  by (simp add: reels_ticker tickReels_nth)

lemma spins_ticker [simp]: "spins (ticker g) = spins g"
  by (simp add: ticker_def case_prod_beta)

lemma session_ticker [simp]:
  "balance (ticker g) = balance g" "spinning (ticker g) = spinning g" "ui (ticker g) = ui g"
  "slotTextures (ticker g) = slotTextures g" "random (ticker g) = random g"
  by (simp_all add: ticker_def case_prod_beta)

lemma tickReel_fields [simp]:
  "position (fst (tickReel ts rnd r k)) = position r"
  "previousPosition (fst (tickReel ts rnd r k)) = position r"
  "spinTween (fst (tickReel ts rnd r k)) = spinTween r"
  "symbols (fst (tickReel ts rnd r k))
     = fst (tickSymbols ts rnd (spinTween r) (position r - previousPosition r) (symbols r) k)"
  by (simp_all add: tickReel_def case_prod_beta Let_def)


section \<open>Tween callbacks\<close>

lemma checkWin_frame [simp]:
  "reels (checkWin g) = reels g" "spins (checkWin g) = spins g"
  "spinning (checkWin g) = spinning g" "drawn (checkWin g) = drawn g"
  "slotTextures (checkWin g) = slotTextures g" "random (checkWin g) = random g"
  by (simp_all add: checkWin_def Let_def)

lemma afterSpin_frame [simp]:
  "reels (afterSpin g) = reels g" "spins (afterSpin g) = spins g"
  "drawn (afterSpin g) = drawn g"
  "slotTextures (afterSpin g) = slotTextures g" "random (afterSpin g) = random g"
  by (simp_all add: afterSpin_def Let_def)

lemma reels_onComplete:
  "reels (onComplete c i g) =
     (reels g)[i := (reels g ! i)\<lparr>spinTween := Null,
        symbols := (if sp_forceWin (spins g ! c)
                    then fst (forceWinAdjust (slotTextures g) (random g)
                                (resultTexture (slotTextures g) (sp_results (spins g ! c)) i)
                                (symbols (reels g ! i)) (drawn g))
                    else symbols (reels g ! i))\<rparr>]"
  by (simp add: onComplete_def Let_def case_prod_beta)

lemma spins_onComplete:
  "spins (onComplete c i g) =
     (spins g)[c := (spins g ! c)\<lparr>reelsStopping := Suc (reelsStopping (spins g ! c)),
        resolved := (if Suc (reelsStopping (spins g ! c)) = length (reels g)
                     then Suc (resolved (spins g ! c)) else resolved (spins g ! c))\<rparr>]"
  by (simp add: onComplete_def Let_def case_prod_beta)

lemma animate_idle: "\<not> registered c i g \<Longrightarrow> animate c i now g = g"
  by (simp add: animate_def)

lemma animate_moving:
  "registered c i g \<Longrightarrow> now < endTime (tweens (spins g ! c) ! i) \<Longrightarrow>
   animate c i now g =
     g\<lparr>reels := (reels g)[i := (reels g ! i)\<lparr>position :=
          lerp (start (tweens (spins g ! c) ! i)) (target (tweens (spins g ! c) ! i))
            (Number (backout (1 / 2) (of_int (now - startTime (tweens (spins g ! c) ! i))
                                       / of_int (time (tweens (spins g ! c) ! i)))))\<rparr>]\<rparr>"
  by (simp add: animate_def Let_def)

lemma animate_done:
  "registered c i g \<Longrightarrow> \<not> now < endTime (tweens (spins g ! c) ! i) \<Longrightarrow>
   animate c i now g =
     onComplete c i
       (g\<lparr>reels := (reels g)[i := (reels g ! i)\<lparr>position := target (tweens (spins g ! c) ! i)\<rparr>],
          spins := (spins g)[c := (spins g ! c)\<lparr>tweens := (tweens (spins g ! c))[i :=
                     (tweens (spins g ! c) ! i)\<lparr>scheduled := False\<rparr>]\<rparr>]\<rparr>)"
  by (simp add: animate_def Let_def)

lemma length_reels_animate [simp]: "length (reels (animate c i now g)) = length (reels g)"
  by (cases "registered c i g"; cases "now < endTime (tweens (spins g ! c) ! i)")
     (simp_all add: animate_idle animate_moving animate_done reels_onComplete)

lemma length_spins_animate [simp]: "length (spins (animate c i now g)) = length (spins g)"
  by (cases "registered c i g"; cases "now < endTime (tweens (spins g ! c) ! i)")
     (simp_all add: animate_idle animate_moving animate_done spins_onComplete)

lemma length_reels_step [simp]: "length (reels (step e g)) = length (reels g)"
  by (cases e) simp_all

lemma length_spins_step [simp]: "length (spins (step e g)) = length (spins g)"
  by (cases e) simp_all

lemma length_reels_run [simp]: "length (reels (run evs g)) = length (reels g)"
  by (induction evs arbitrary: g) simp_all

lemma length_spins_run [simp]: "length (spins (run evs g)) = length (spins g)"
  by (induction evs arbitrary: g) simp_all

section \<open>Starting a spin\<close>

text \<open>On a position other than NaN and with a target in the list, the reel loop computes
  the target position described above; otherwise it computes NaN.\<close>

lemma spinTarget_Number:
  "index < length results \<Longrightarrow>
   spinTarget (Number p) results index = Number (targetPosition p (results ! index))"
  by (simp add: spinTarget_def resultAt_def rem_def targetPosition_def spinDistance_def
        distanceToAlign_def currentReelPositionNormalized_def Let_def)

lemma spinTarget_short: "length results \<le> index \<Longrightarrow> spinTarget pos results index = NaN"
  by (simp add: spinTarget_def resultAt_def Let_def)

lemma spinTarget_NaN: "spinTarget NaN results index = NaN"
  by (simp add: spinTarget_def Let_def)

lemma spinTarget_append:
  "index < length results \<Longrightarrow>
   spinTarget pos (results @ extra) index = spinTarget pos results index"
  by (simp add: spinTarget_def resultAt_def nth_append)

lemma map_nth_upt: "map (\<lambda>i. f (xs ! i)) [0 ..< length xs] = map f xs"
  by (rule nth_equalityI) simp_all

lemma startReelSpin_eq:
  "startReelSpin results forceWin now g =
     g\<lparr>reels := map (\<lambda>r. r\<lparr>spinTween := Undefined\<rparr>) (reels g),
       spins := spins g @
         [\<lparr>sp_results = results, sp_forceWin = forceWin, reelsStopping = 0, resolved = 0,
           tweens = map (\<lambda>i. \<lparr>start = position (reels g ! i),
                                target = spinTarget (position (reels g ! i)) results i,
                                startTime = now i,
                                endTime = now i + (SPIN_DURATION_BASE + int i * 500),
                                time = SPIN_DURATION_BASE + int i * 500,
                                scheduled = True\<rparr>) [0 ..< length (reels g)],
           awaited = False\<rparr>]\<rparr>"
proof -
  have m: "map (\<lambda>index. (reels g ! index)\<lparr>spinTween := Undefined\<rparr>) [0 ..< length (reels g)]
        = map (\<lambda>r. r\<lparr>spinTween := Undefined\<rparr>) (reels g)"
    by (rule map_nth_upt)
  show ?thesis
    unfolding startReelSpin_def Let_def tweenTo_def fst_conv snd_conv m ..
qed

text \<open>The state after \<open>startReelSpin\<close>, field by field.\<close>

lemma startReelSpin_fields:
  shows "reels (startReelSpin results forceWin now g)
           = map (\<lambda>r. r\<lparr>spinTween := Undefined\<rparr>) (reels g)"
    and "length (spins (startReelSpin results forceWin now g)) = Suc (length (spins g))"
    and "\<And>c. c < length (spins g) \<Longrightarrow>
           spins (startReelSpin results forceWin now g) ! c = spins g ! c"
    and "sp_forceWin (spins (startReelSpin results forceWin now g) ! length (spins g)) = forceWin"
    and "sp_results (spins (startReelSpin results forceWin now g) ! length (spins g)) = results"
    and "reelsStopping (spins (startReelSpin results forceWin now g) ! length (spins g)) = 0"
    and "resolved (spins (startReelSpin results forceWin now g) ! length (spins g)) = 0"
    and "length (tweens (spins (startReelSpin results forceWin now g) ! length (spins g)))
           = length (reels g)"
    and "\<And>i. i < length (reels g) \<Longrightarrow>
           tweens (spins (startReelSpin results forceWin now g) ! length (spins g)) ! i =
             \<lparr>start = position (reels g ! i),
              target = spinTarget (position (reels g ! i)) results i,
              startTime = now i, endTime = now i + (SPIN_DURATION_BASE + int i * 500),
              time = SPIN_DURATION_BASE + int i * 500, scheduled = True\<rparr>"
    and "slotTextures (startReelSpin results forceWin now g) = slotTextures g"
    and "random (startReelSpin results forceWin now g) = random g"
    and "balance (startReelSpin results forceWin now g) = balance g"
    and "spinning (startReelSpin results forceWin now g) = spinning g"
    and "ui (startReelSpin results forceWin now g) = ui g"
    and "drawn (startReelSpin results forceWin now g) = drawn g"
    and "awaited (spins (startReelSpin results forceWin now g) ! length (spins g)) = False"
  unfolding startReelSpin_eq by (simp_all add: nth_append)


section \<open>Recycling\<close>

lemma tickSymbol_y:
  "y (fst (tickSymbol ts rnd tw d s m)) =
     (if y s + d + Number (CELL_HEIGHT / 2) < Number 0 then y s + d + Number totalStripHeight
      else if y s + d - Number (CELL_HEIGHT / 2) > Number (CELL_HEIGHT * of_nat NUM_VISIBLE_SYMBOLS)
      then y s + d - Number totalStripHeight else y s + d)"
  by (simp add: tickSymbol_def Let_def)

lemma tickSymbol_texture:
  "texture (fst (tickSymbol ts rnd tw d s m)) =
     (if (y s + d + Number (CELL_HEIGHT / 2) < Number 0
          \<or> y s + d - Number (CELL_HEIGHT / 2) > Number (CELL_HEIGHT * of_nat NUM_VISIBLE_SYMBOLS))
         \<and> truthy tw
      then randomTexture ts rnd m else texture s)"
  by (simp add: tickSymbol_def Let_def)

lemma tickSymbol_snd:
  "snd (tickSymbol ts rnd tw d s m) =
     (if (y s + d + Number (CELL_HEIGHT / 2) < Number 0
          \<or> y s + d - Number (CELL_HEIGHT / 2) > Number (CELL_HEIGHT * of_nat NUM_VISIBLE_SYMBOLS))
         \<and> truthy tw
      then Suc m else m)"
  by (simp add: tickSymbol_def Let_def)

lemma snd_tickReel:
  "snd (tickReel ts rnd r k)
     = snd (tickSymbols ts rnd (spinTween r) (position r - previousPosition r) (symbols r) k)"
  by (simp add: tickReel_def case_prod_beta Let_def)

lemma tickReel_falsy:
  assumes "\<not> truthy (spinTween r)"
  shows "map texture (symbols (fst (tickReel ts rnd r k))) = map texture (symbols r)"
    and "snd (tickReel ts rnd r k) = k"
  using assms by (simp_all add: snd_tickReel tickSymbols_falsy tickSymbol_texture o_def)

text \<open>
  One ticker step of a reel, for the symbol with index \<open>j\<close>: the number of symbols stays
  the same; the new offset is the old one plus the scroll delta, plus one strip height
  when that lies above the window and minus one strip height when it lies below; the
  texture is replaced by a freshly drawn random texture exactly when the symbol wraps and
  the reel's \<open>spinTween\<close> is truthy, and is kept otherwise; with a falsy \<open>spinTween\<close> no
  texture of the reel changes and no random number is drawn.
\<close>

lemma tickReel_symbol:
  assumes "j < length (symbols r)"
  shows "let y1 = y (symbols r ! j) + (position r - previousPosition r);
             wraps = (y1 + Number (CELL_HEIGHT / 2) < Number 0
                      \<or> y1 - Number (CELL_HEIGHT / 2)
                          > Number (CELL_HEIGHT * of_nat NUM_VISIBLE_SYMBOLS));
             r' = fst (tickReel ts rnd r k);
             k' = snd (tickReel ts rnd r k)
         in length (symbols r') = length (symbols r)
          \<and> y (symbols r' ! j) =
              (if y1 + Number (CELL_HEIGHT / 2) < Number 0 then y1 + Number totalStripHeight
               else if y1 - Number (CELL_HEIGHT / 2)
                         > Number (CELL_HEIGHT * of_nat NUM_VISIBLE_SYMBOLS)
               then y1 - Number totalStripHeight else y1)
          \<and> (if wraps \<and> truthy (spinTween r)
              then \<exists>m. k \<le> m \<and> m < k' \<and> texture (symbols r' ! j) = randomTexture ts rnd m
              else texture (symbols r' ! j) = texture (symbols r ! j))
          \<and> (\<not> truthy (spinTween r) \<longrightarrow>
                map texture (symbols r') = map texture (symbols r) \<and> k' = k)"
proof -
  let ?d = "position r - previousPosition r"
  let ?tw = "spinTween r"
  let ?y1 = "y (symbols r ! j) + ?d"
  let ?wraps = "?y1 + Number (CELL_HEIGHT / 2) < Number 0
      \<or> ?y1 - Number (CELL_HEIGHT / 2) > Number (CELL_HEIGHT * of_nat NUM_VISIBLE_SYMBOLS)"
  from tickSymbols_nth[OF assms, of k ts rnd ?tw ?d] obtain m where
    m: "k \<le> m"
      "fst (tickSymbols ts rnd ?tw ?d (symbols r) k) ! j
         = fst (tickSymbol ts rnd ?tw ?d (symbols r ! j) m)"
      "snd (tickSymbol ts rnd ?tw ?d (symbols r ! j) m)
         \<le> snd (tickSymbols ts rnd ?tw ?d (symbols r) k)"
    by blast
  have len: "length (symbols (fst (tickReel ts rnd r k))) = length (symbols r)"
    by simp
  have yy: "y (symbols (fst (tickReel ts rnd r k)) ! j) =
      (if ?y1 + Number (CELL_HEIGHT / 2) < Number 0 then ?y1 + Number totalStripHeight
       else if ?y1 - Number (CELL_HEIGHT / 2) > Number (CELL_HEIGHT * of_nat NUM_VISIBLE_SYMBOLS)
       then ?y1 - Number totalStripHeight else ?y1)"
    by (simp add: m(2) tickSymbol_y)
  have tex: "texture (symbols (fst (tickReel ts rnd r k)) ! j) =
      (if ?wraps \<and> truthy ?tw then randomTexture ts rnd m else texture (symbols r ! j))"
    by (simp add: m(2) tickSymbol_texture)
  have cnt: "?wraps \<and> truthy ?tw \<Longrightarrow> m < snd (tickReel ts rnd r k)"
    using m(3) by (simp add: snd_tickReel tickSymbol_snd split: if_splits)
  have idle: "\<not> truthy ?tw \<longrightarrow>
      map texture (symbols (fst (tickReel ts rnd r k))) = map texture (symbols r)
      \<and> snd (tickReel ts rnd r k) = k"
    using tickReel_falsy[of r ts rnd k] by blast
  show ?thesis
    unfolding Let_def
    using len yy tex cnt idle m(1) by (auto simp del: tickReel_fields)
qed

section \<open>Effect of a tween callback on the reels\<close>

lemma animate_reel_other:
  "j \<noteq> i \<Longrightarrow> reels (animate c i now g) ! j = reels g ! j"
  by (cases "registered c i g"; cases "now < endTime (tweens (spins g ! c) ! i)")
     (simp_all add: animate_idle animate_moving animate_done reels_onComplete)

lemma animate_previousPosition:
  "previousPosition (reels (animate c i now g) ! j) = previousPosition (reels g ! j)"
proof (cases "j = i \<and> registered c i g")
  case True
  then have "i < length (reels g)" by (simp add: registered_def)
  then show ?thesis
    using True
    by (cases "now < endTime (tweens (spins g ! c) ! i)")
       (simp_all add: animate_moving animate_done reels_onComplete)
next
  case False
  then show ?thesis by (auto simp: animate_reel_other animate_idle)
qed

lemma animate_spinTween:
  "spinTween (reels (animate c i now g) ! j) = spinTween (reels g ! j)
   \<or> spinTween (reels (animate c i now g) ! j) = Null"
proof (cases "j = i \<and> registered c i g")
  case True
  then have "i < length (reels g)" by (simp add: registered_def)
  then show ?thesis
    using True
    by (cases "now < endTime (tweens (spins g ! c) ! i)")
       (simp_all add: animate_moving animate_done reels_onComplete)
next
  case False
  then show ?thesis by (auto simp: animate_reel_other animate_idle)
qed

lemma animate_symbols:
  assumes "\<not> (registered c i g \<and> sp_forceWin (spins g ! c))"
  shows "symbols (reels (animate c i now g) ! j) = symbols (reels g ! j)"
proof (cases "j = i \<and> registered c i g")
  case True
  then have "i < length (reels g)" "c < length (spins g)" "\<not> sp_forceWin (spins g ! c)"
    using assms by (simp_all add: registered_def)
  then show ?thesis
    using True
    by (cases "now < endTime (tweens (spins g ! c) ! i)")
       (simp_all add: animate_moving animate_done reels_onComplete)
next
  case False
  then show ?thesis by (auto simp: animate_reel_other animate_idle)
qed

text \<open>No callback ever makes a \<open>spinTween\<close> truthy.\<close>

lemma step_keeps_falsy:
  assumes "list_all (\<lambda>r. \<not> truthy (spinTween r)) (reels g)"
  shows "list_all (\<lambda>r. \<not> truthy (spinTween r)) (reels (step e g))"
proof (cases e)
  case Ticker
  show ?thesis
    unfolding list_all_length
  proof (intro allI impI)
    fix i assume "i < length (reels (step e g))"
    then have i: "i < length (reels g)" by simp
    from reels_ticker_nth[OF i] obtain m where
      "reels (ticker g) ! i = fst (tickReel (slotTextures g) (random g) (reels g ! i) m)"
      by blast
    then show "\<not> truthy (spinTween (reels (step e g) ! i))"
      using assms i Ticker by (simp add: list_all_length)
  qed
next
  case (Animate c i now)
  show ?thesis
    unfolding list_all_length
  proof (intro allI impI)
    fix j assume "j < length (reels (step e g))"
    then have j: "j < length (reels g)" by simp
    then have "\<not> truthy (spinTween (reels g ! j))"
      using assms by (simp add: list_all_length)
    then show "\<not> truthy (spinTween (reels (step e g) ! j))"
      using animate_spinTween[of c i now g j] Animate by auto
  qed
qed

lemma run_keeps_falsy:
  "list_all (\<lambda>r. \<not> truthy (spinTween r)) (reels g) \<Longrightarrow>
   list_all (\<lambda>r. \<not> truthy (spinTween r)) (reels (run evs g))"
  by (induction evs arbitrary: g) (simp_all add: step_keeps_falsy)

section \<open>Counting the stopped reels\<close>

lemma filter_count_update:
  "i < length xs \<Longrightarrow> P x \<Longrightarrow> \<not> P (xs ! i) \<Longrightarrow>
   length (filter P (xs[i := x])) = Suc (length (filter P xs))"
proof (induction xs arbitrary: i)
  case Nil
  then show ?case by simp
next
  case (Cons a xs)
  then show ?case by (cases i) simp_all
qed

lemma filter_count_less:
  "i < length xs \<Longrightarrow> \<not> P (xs ! i) \<Longrightarrow> length (filter P xs) < length xs"
proof (induction xs arbitrary: i)
  case Nil
  then show ?case by simp
next
  case (Cons a xs)
  show ?case
  proof (cases i)
    case 0
    have "length (filter P xs) \<le> length xs" by simp
    then have "length (filter P xs) < Suc (length xs)" by linarith
    then show ?thesis
      using Cons.prems 0 by simp
  next
    case (Suc i')
    then show ?thesis
      using Cons.prems Cons.IH[of i'] by simp
  qed
qed

lemma filter_count_all:
  "length (filter P xs) = length xs \<longleftrightarrow> list_all P xs"
proof (induction xs)
  case Nil
  then show ?case by simp
next
  case (Cons a xs)
  have le: "length (filter P xs) \<le> length xs" by simp
  show ?case
  proof (cases "P a")
    case True
    then show ?thesis using Cons by simp
  next
    case False
    have "length (filter P xs) \<noteq> Suc (length xs)" using le by linarith
    then show ?thesis using False by simp
  qed
qed

lemma counted_animate:
  assumes "counted c g"
  shows "counted c (animate c' i now g)"
proof (cases "registered c' i g")
  case False
  then show ?thesis using assms by (simp add: animate_idle)
next
  case reg: True
  then have i: "i < length (reels g)" "c' < length (spins g)"
    "i < length (tweens (spins g ! c'))" "scheduled (tweens (spins g ! c') ! i)"
    by (simp_all add: registered_def)
  show ?thesis
  proof (cases "now < endTime (tweens (spins g ! c') ! i)")
    case True
    then show ?thesis
      using assms reg by (simp add: animate_moving counted_def)
  next
    case False
    show ?thesis
    proof (cases "c' = c")
      case diff: False
      then show ?thesis
        using assms reg False i
        by (simp add: animate_done counted_def spins_onComplete reels_onComplete)
    next
      case same: True
      let ?sp = "spins g ! c"
      let ?P = "\<lambda>tw. \<not> scheduled tw"
      have cnt: "length (filter ?P ((tweens ?sp)[i := (tweens ?sp ! i)\<lparr>scheduled := False\<rparr>]))
                 = Suc (length (filter ?P (tweens ?sp)))"
        using i same by (intro filter_count_update) simp_all
      have less: "length (filter ?P (tweens ?sp)) < length (tweens ?sp)"
        using i same filter_count_less[of i "tweens ?sp" ?P] by simp
      then have zero: "resolved ?sp = 0"
        using assms by (simp add: counted_def)
      show ?thesis
        using assms reg False i same cnt less zero
        by (simp add: animate_done counted_def spins_onComplete reels_onComplete)
    qed
  qed
qed

lemma counted_step: "counted c g \<Longrightarrow> counted c (step e g)"
  by (cases e) (simp_all add: counted_animate, simp add: counted_def)

lemma counted_run: "counted c g \<Longrightarrow> counted c (run evs g)"
  by (induction evs arbitrary: g) (simp_all add: counted_step)

lemma counted_start:
  assumes "reels g \<noteq> []"
  shows "counted (length (spins g)) (startReelSpin results forceWin now g)"
proof -
  note f = startReelSpin_fields[where results = results and forceWin = forceWin and now = now and g = g]
  have "list_all scheduled
          (tweens (spins (startReelSpin results forceWin now g) ! length (spins g)))"
    using f(8) f(9) by (simp add: list_all_length)
  then have "filter (\<lambda>tw. \<not> scheduled tw)
               (tweens (spins (startReelSpin results forceWin now g) ! length (spins g))) = []"
    by (simp add: filter_empty_conv list_all_iff)
  then show ?thesis
    using assms f(1,2,6,7,8) by (simp add: counted_def)
qed

text \<open>A registered tween completes at its first callback at or after its end time.\<close>

lemma animate_completes:
  assumes "registered c i g" and "endTime (tweens (spins g ! c) ! i) \<le> now"
  shows "\<not> scheduled (tweens (spins (animate c i now g) ! c) ! i)"
proof -
  have f: "\<not> now < endTime (tweens (spins g ! c) ! i)" using assms(2) by simp
  have "c < length (spins g)" "i < length (tweens (spins g ! c))"
    using assms(1) by (simp_all add: registered_def)
  then show ?thesis
    by (simp add: animate_done[OF assms(1) f] spins_onComplete)
qed

text \<open>
  C7. After \<open>startReelSpin\<close> on a non-empty reel list and any sequence of ticker and
  tween callbacks, \<open>resolve\<close> of that spin has been called once if every tween of the
  spin has completed, and not at all otherwise: it is never called while a reel is still
  animating, never twice, and the order in which the reels stop does not matter.
\<close>

theorem resolve_exactly_once:
  assumes "reels g \<noteq> []"
  shows "resolved (spins (run evs (startReelSpin results forceWin now g)) ! length (spins g)) =
           (if list_all (\<lambda>tw. \<not> scheduled tw)
                 (tweens (spins (run evs (startReelSpin results forceWin now g))
                            ! length (spins g)))
            then 1 else 0)"
proof -
  have "counted (length (spins g)) (run evs (startReelSpin results forceWin now g))"
    using counted_start[OF assms] by (rule counted_run)
  then show ?thesis
    using filter_count_all[of "\<lambda>tw. \<not> scheduled tw"
            "tweens (spins (run evs (startReelSpin results forceWin now g)) ! length (spins g))"]
    by (simp add: counted_def)
qed

theorem resolve_exactly_once_witness:
  "reels freshGame \<noteq> []
   \<and> resolved (spins (run jankyRun (startReelSpin [1, 2, 3] False (\<lambda>i. 0) freshGame))
                 ! length (spins freshGame)) = 1
   \<and> resolved (spins (run (butlast jankyRun) (startReelSpin [1, 2, 3] False (\<lambda>i. 0) freshGame))
                 ! length (spins freshGame)) = 0"
proof -
  have h2: "reels freshGame \<noteq> []"
    by (simp add: freshGame_def initSlotGame_def)
  have a: "list_all (\<lambda>tw. \<not> scheduled tw)
             (tweens (spins (run jankyRun (startReelSpin [1, 2, 3] False (\<lambda>i. 0) freshGame))
                        ! length (spins freshGame)))"
    by (simp add: eval_defs)
  have b: "\<not> list_all (\<lambda>tw. \<not> scheduled tw)
             (tweens (spins (run (butlast jankyRun)
                               (startReelSpin [1, 2, 3] False (\<lambda>i. 0) freshGame))
                        ! length (spins freshGame)))"
    by (simp add: eval_defs)
  show ?thesis
    using resolve_exactly_once[OF h2, where evs = jankyRun and results = "[1, 2, 3]"
        and forceWin = False and now = "\<lambda>i. 0"]
      resolve_exactly_once[OF h2, where evs = "butlast jankyRun" and results = "[1, 2, 3]"
        and forceWin = False and now = "\<lambda>i. 0"] h2 a b
    by simp
qed

lemma less_3_cases: "(\<forall>i<3::nat. P i) \<longleftrightarrow> P 0 \<and> P 1 \<and> P 2"
  by (auto simp: numeral_3_eq_3 numeral_2_eq_2 less_Suc_eq)

section \<open>The spin session\<close>

lemma allMatch_iff:
  "allMatch ts \<longleftrightarrow> (\<forall>i < length ts. ts ! i \<noteq> Null \<and> ts ! i = ts ! 0)"
  by (cases ts) (auto simp: allMatch_def js_index_def list_all_length)

lemma checkWin_cases:
  "checkWin g =
     (if (\<forall>i < length (reels g).
            getVisibleTexturesAtWinLine (reels g) ! i \<noteq> Null
          \<and> getVisibleTexturesAtWinLine (reels g) ! i = getVisibleTexturesAtWinLine (reels g) ! 0)
      then g\<lparr>balance := balance g + 500,
             ui := ui g @ [UpdateBalanceDisplay (balance g + 500),
                           ShowWinLossMessage ''GANHASTE 500!'' True, TriggerFireworksSequence]\<rparr>
      else g\<lparr>ui := ui g @ [ShowWinLossMessage ''AZAR!'' False]\<rparr>)"
proof -
  have "length (getVisibleTexturesAtWinLine (reels g)) = length (reels g)"
    by (simp add: getVisibleTexturesAtWinLine_def)
  then show ?thesis
    using allMatch_iff[of "getVisibleTexturesAtWinLine (reels g)"]
    by (simp add: checkWin_def Let_def)
qed

lemma fresh_sample: "getVisibleTexturesAtWinLine (reels freshGame) = [Obj 2, Obj 2, Obj 2]"
  by (simp add: eval_defs)

text \<open>
  C5. \<open>checkWin\<close> declares a win exactly when every texture sampled on the win line is
  present (not \<open>null\<close>) and equal to the first one; on a win it adds 500 to the balance
  and reports the new balance, the win message and the fireworks to the UI; otherwise it
  reports the loss message and leaves the balance alone.
\<close>

theorem checkWin_outcome:
  "checkWin g =
     (if (\<forall>i < length (reels g).
            getVisibleTexturesAtWinLine (reels g) ! i \<noteq> Null
          \<and> getVisibleTexturesAtWinLine (reels g) ! i = getVisibleTexturesAtWinLine (reels g) ! 0)
      then g\<lparr>balance := balance g + 500,
             ui := ui g @ [UpdateBalanceDisplay (balance g + 500),
                           ShowWinLossMessage ''GANHASTE 500!'' True, TriggerFireworksSequence]\<rparr>
      else g\<lparr>ui := ui g @ [ShowWinLossMessage ''AZAR!'' False]\<rparr>)"
  by (rule checkWin_cases)

theorem checkWin_outcome_witness:
  "getVisibleTexturesAtWinLine (reels freshGame) = [Obj 2, Obj 2, Obj 2]
   \<and> balance (checkWin freshGame) = 1500
   \<and> ui (checkWin freshGame) =
       [UpdateBalanceDisplay 1000, UpdateBalanceDisplay 1500,
        ShowWinLossMessage ''GANHASTE 500!'' True, TriggerFireworksSequence]"
proof -
  have len: "length (reels freshGame) = 3"
    by (simp add: freshGame_def initSlotGame_def)
  have all: "\<forall>i < length (reels freshGame).
       getVisibleTexturesAtWinLine (reels freshGame) ! i \<noteq> Null
     \<and> getVisibleTexturesAtWinLine (reels freshGame) ! i
         = getVisibleTexturesAtWinLine (reels freshGame) ! 0"
    unfolding len fresh_sample less_3_cases by simp
  have b: "balance freshGame = 1000" "ui freshGame = [UpdateBalanceDisplay 1000]"
    by (simp_all add: freshGame_def initSlotGame_def)
  have w: "checkWin freshGame =
      freshGame\<lparr>balance := balance freshGame + 500,
        ui := ui freshGame @ [UpdateBalanceDisplay (balance freshGame + 500),
                ShowWinLossMessage ''GANHASTE 500!'' True, TriggerFireworksSequence]\<rparr>"
    by (subst checkWin_outcome) (rule if_P[OF all])
  show ?thesis
  proof (intro conjI)
    show "getVisibleTexturesAtWinLine (reels freshGame) = [Obj 2, Obj 2, Obj 2]"
      by (rule fresh_sample)
    show "balance (checkWin freshGame) = 1500" by (simp add: w b)
    show "ui (checkWin freshGame) =
       [UpdateBalanceDisplay 1000, UpdateBalanceDisplay 1500,
        ShowWinLossMessage ''GANHASTE 500!'' True, TriggerFireworksSequence]"
      by (simp add: w b)
  qed
qed

text \<open>
  C6. A spin request in an idle session whose balance is below the spin cost shows the
  insufficient-funds message and changes nothing else: the balance, the session state
  (still idle), the reels and the random numbers are as before.
\<close>

theorem startSpin_insufficient_funds:
  "\<not> spinning g \<Longrightarrow> balance g < SPIN_COST \<Longrightarrow>
   startSpin forceWin now g =
     g\<lparr>ui := ui g @ [ShowGameMessage ''Saldo insuficiente para girar!'']\<rparr>"
  by (simp add: startSpin_def)

theorem startSpin_insufficient_funds_witness:
  "\<not> spinning (freshGame\<lparr>balance := 99\<rparr>) \<and> balance (freshGame\<lparr>balance := 99\<rparr>) < SPIN_COST
   \<and> startSpin False (\<lambda>i. 0) (freshGame\<lparr>balance := 99\<rparr>) =
       freshGame\<lparr>balance := 99,
         ui := [UpdateBalanceDisplay 1000, ShowGameMessage ''Saldo insuficiente para girar!'']\<rparr>"
proof -
  have a: "\<not> spinning (freshGame\<lparr>balance := 99\<rparr>)"
    by (simp add: freshGame_def initSlotGame_def)
  have b: "balance (freshGame\<lparr>balance := 99\<rparr>) < SPIN_COST" by simp
  have u: "ui freshGame = [UpdateBalanceDisplay 1000]"
    by (simp add: freshGame_def initSlotGame_def)
  show ?thesis
    using startSpin_insufficient_funds[OF a b, of False "\<lambda>i. 0"] a u by simp
qed

text \<open>
  C8. A spin request while the session is spinning returns the state it was given: no
  deduction, no new targets, no random number drawn, nothing sent to the UI, the reels
  and the tweens untouched.
\<close>

theorem startSpin_while_spinning:
  "spinning g \<Longrightarrow> startSpin forceWin now g = g"
  by (simp add: startSpin_def)

lemma spinningGame_spinning: "spinning spinningGame \<and> balance spinningGame = 900"
  by (simp add: eval_defs)

theorem startSpin_while_spinning_witness:
  "spinning spinningGame \<and> startSpin True (\<lambda>i. 5) spinningGame = spinningGame"
proof -
  have s: "spinning spinningGame" using spinningGame_spinning by simp
  show ?thesis using startSpin_while_spinning[OF s, of True "\<lambda>i. 5"] s by simp
qed

text \<open>
  C4. After a click on the spin button the three tweens are registered, yet the
  \<open>spinTween\<close> field of every reel holds \<open>undefined\<close>, which is not truthy: the field is
  absent while the animations are in flight.
\<close>

theorem spinTween_undefined_in_flight:
  "map scheduled (tweens (spins spinningGame ! 0)) = [True, True, True]
   \<and> map spinTween (reels spinningGame) = [Undefined, Undefined, Undefined]
   \<and> map (\<lambda>r. truthy (spinTween r)) (reels spinningGame) = [False, False, False]"
  by (simp add: eval_defs)

text \<open>
  C3. A ticker step while the animation of reel 0 is in flight, 100 ms after the click on
  the spin button: the tween of the reel is registered and has moved the reel to position
  13215/8, but the reel's \<open>spinTween\<close> is \<open>undefined\<close>. The symbol with index 3 leaves the
  window at the bottom edge and is moved up by one strip height, from offset 700 to
  2815/8, and keeps its texture; no texture of the reel changes and no random number is
  drawn.
\<close>

theorem wrapped_symbol_keeps_texture_in_flight:
  "scheduled (tweens (spins (animate 0 0 100 spinningGame) ! 0) ! 0)
   \<and> spinTween (reels (animate 0 0 100 spinningGame) ! 0) = Undefined
   \<and> position (reels (animate 0 0 100 spinningGame) ! 0) = Number (13215 / 8)
   \<and> y (symbols (reels (animate 0 0 100 spinningGame) ! 0) ! 3) = Number 700
   \<and> y (symbols (reels (ticker (animate 0 0 100 spinningGame)) ! 0) ! 3) = Number (2815 / 8)
   \<and> map texture (symbols (reels (ticker (animate 0 0 100 spinningGame)) ! 0))
       = map texture (symbols (reels (animate 0 0 100 spinningGame) ! 0))
   \<and> drawn (ticker (animate 0 0 100 spinningGame)) = drawn (animate 0 0 100 spinningGame)"
  by (simp add: eval_defs)

section \<open>Unresolvable centre symbols\<close>

lemma middleSymbolTexture_none:
  "\<forall>s\<in>set ss. \<not> \<bar>y s - Number (CELL_HEIGHT * 1 + CELL_HEIGHT / 2)\<bar> < Number 5 \<Longrightarrow>
   middleSymbolTexture ss = Null"
  by (induction ss) simp_all

lemma unresolved_loss:
  assumes "i < length (reels g)"
    and "\<forall>s\<in>set (symbols (reels g ! i)).
           \<not> \<bar>y s - Number (CELL_HEIGHT * 1 + CELL_HEIGHT / 2)\<bar> < Number 5"
  shows "getVisibleTexturesAtWinLine (reels g) ! i = Null"
    and "checkWin g = g\<lparr>ui := ui g @ [ShowWinLossMessage ''AZAR!'' False]\<rparr>"
proof -
  show n: "getVisibleTexturesAtWinLine (reels g) ! i = Null"
    using assms(1) middleSymbolTexture_none[OF assms(2)]
    by (simp add: getVisibleTexturesAtWinLine_def)
  have "\<not> (\<forall>i < length (reels g).
            getVisibleTexturesAtWinLine (reels g) ! i \<noteq> Null
          \<and> getVisibleTexturesAtWinLine (reels g) ! i = getVisibleTexturesAtWinLine (reels g) ! 0)"
    using assms(1) n by blast
  then show "checkWin g = g\<lparr>ui := ui g @ [ShowWinLossMessage ''AZAR!'' False]\<rparr>"
    by (subst checkWin_cases) (rule if_not_P)
qed

section \<open>Target lists that do not match the reels\<close>

lemma surplus_targets:
  assumes le: "length (reels g) \<le> length results"
  shows "reels (startReelSpin (results @ extra) forceWin now g)
           = reels (startReelSpin results forceWin now g)"
    and "tweens (spins (startReelSpin (results @ extra) forceWin now g) ! length (spins g))
           = tweens (spins (startReelSpin results forceWin now g) ! length (spins g))"
proof -
  show "reels (startReelSpin (results @ extra) forceWin now g)
           = reels (startReelSpin results forceWin now g)"
    by (simp add: startReelSpin_fields(1))
  have "map (\<lambda>i. \<lparr>start = position (reels g ! i),
                  target = spinTarget (position (reels g ! i)) (results @ extra) i,
                  startTime = now i,
                  endTime = now i + (SPIN_DURATION_BASE + int i * 500),
                  time = SPIN_DURATION_BASE + int i * 500,
                  scheduled = True\<rparr>) [0 ..< length (reels g)]
      = map (\<lambda>i. \<lparr>start = position (reels g ! i),
                  target = spinTarget (position (reels g ! i)) results i,
                  startTime = now i,
                  endTime = now i + (SPIN_DURATION_BASE + int i * 500),
                  time = SPIN_DURATION_BASE + int i * 500,
                  scheduled = True\<rparr>) [0 ..< length (reels g)]"
    using le by (intro map_cong refl) (simp add: spinTarget_append)
  then show "tweens (spins (startReelSpin (results @ extra) forceWin now g) ! length (spins g))
           = tweens (spins (startReelSpin results forceWin now g) ! length (spins g))"
    unfolding startReelSpin_eq by simp
qed

text \<open>A tween with the target NaN makes the position of its reel NaN at its first
  callback.\<close>

lemma animate_NaN:
  assumes reg: "registered c i g" and nan: "target (tweens (spins g ! c) ! i) = NaN"
  shows "position (reels (animate c i now g) ! i) = NaN"
proof -
  have i: "i < length (reels g)" using reg by (simp add: registered_def)
  show ?thesis
  proof (cases "now < endTime (tweens (spins g ! c) ! i)")
    case True
    then show ?thesis
      using i nan by (simp add: animate_moving[OF reg] lerp_def)
  next
    case False
    then show ?thesis
      using i nan by (simp add: animate_done[OF reg] reels_onComplete)
  qed
qed

text \<open>The ticker then makes every symbol offset of the reel NaN, and they stay so.\<close>

lemma tickSymbol_NaN: "y s + d = NaN \<Longrightarrow> y (fst (tickSymbol ts rnd tw d s m)) = NaN"
  by (simp add: tickSymbol_y)

lemma tickReel_NaN:
  assumes "\<forall>s\<in>set (symbols r). y s + (position r - previousPosition r) = NaN"
  shows "list_all (\<lambda>s. y s = NaN) (symbols (fst (tickReel ts rnd r k)))"
  unfolding list_all_length
proof (intro allI impI)
  fix j assume "j < length (symbols (fst (tickReel ts rnd r k)))"
  then have j: "j < length (symbols r)" by simp
  let ?d = "position r - previousPosition r"
  from tickSymbols_nth[OF j, of k ts rnd "spinTween r" ?d] obtain m where
    m: "fst (tickSymbols ts rnd (spinTween r) ?d (symbols r) k) ! j
         = fst (tickSymbol ts rnd (spinTween r) ?d (symbols r ! j) m)"
    by blast
  have "y (symbols r ! j) + ?d = NaN" using assms j by simp
  then show "y (symbols (fst (tickReel ts rnd r k)) ! j) = NaN"
    by (simp add: m tickSymbol_NaN)
qed

lemma ticker_blank:
  assumes i: "i < length (reels g)"
    and nan: "position (reels g ! i) = NaN \<or> list_all (\<lambda>s. y s = NaN) (symbols (reels g ! i))"
  shows "blank i (ticker g)"
proof -
  from reels_ticker_nth[OF i] obtain m where
    m: "reels (ticker g) ! i = fst (tickReel (slotTextures g) (random g) (reels g ! i) m)"
    by blast
  have "\<forall>s\<in>set (symbols (reels g ! i)).
          y s + (position (reels g ! i) - previousPosition (reels g ! i)) = NaN"
    using nan by (auto simp: list_all_iff)
  then show ?thesis
    unfolding blank_def m using i by (simp add: tickReel_NaN del: tickReel_fields)
qed

lemma update_texture_y: "map y (xs[n := (xs ! n)\<lparr>texture := t\<rparr>]) = map y xs"
proof (rule nth_equalityI)
  show "length (map y (xs[n := (xs ! n)\<lparr>texture := t\<rparr>])) = length (map y xs)"
    by simp
next
  fix i assume "i < length (map y (xs[n := (xs ! n)\<lparr>texture := t\<rparr>]))"
  then have "i < length xs" by simp
  then show "map y (xs[n := (xs ! n)\<lparr>texture := t\<rparr>]) ! i = map y xs ! i"
    by (cases "i = n") simp_all
qed

lemma forceWinAdjust_y: "map y (fst (forceWinAdjust ts rnd w ss k)) = map y ss"
  by (simp add: forceWinAdjust_def Let_def update_texture_y)

lemma animate_y: "map y (symbols (reels (animate c i now g) ! j)) = map y (symbols (reels g ! j))"
proof (cases "j = i \<and> registered c i g")
  case True
  then have "i < length (reels g)" by (simp add: registered_def)
  then show ?thesis
    using True
    by (cases "now < endTime (tweens (spins g ! c) ! i)")
       (simp_all add: animate_moving animate_done reels_onComplete forceWinAdjust_y)
next
  case False
  then show ?thesis by (auto simp: animate_reel_other animate_idle)
qed

lemma blank_step: "blank i g \<Longrightarrow> blank i (step e g)"
proof (cases e)
  case Ticker
  assume "blank i g"
  then have "i < length (reels g)" "list_all (\<lambda>s. y s = NaN) (symbols (reels g ! i))"
    by (simp_all add: blank_def)
  then have "blank i (ticker g)"
    by (intro ticker_blank) simp_all
  then show ?thesis using Ticker by simp
next
  case (Animate c i' now)
  assume b: "blank i g"
  have eq: "map y (symbols (reels (animate c i' now g) ! i)) = map y (symbols (reels g ! i))"
    by (rule animate_y)
  have "list_all (\<lambda>v. v = NaN) (map y (symbols (reels g ! i)))"
    using b by (simp add: blank_def list_all_iff)
  then have "list_all (\<lambda>v. v = NaN) (map y (symbols (reels (animate c i' now g) ! i)))"
    by (simp only: eq)
  then have "list_all (\<lambda>s. y s = NaN) (symbols (reels (animate c i' now g) ! i))"
    by (simp add: list_all_iff)
  then show ?thesis
    using b Animate by (simp add: blank_def)
qed

lemma blank_run: "blank i g \<Longrightarrow> blank i (run evs g)"
  by (induction evs arbitrary: g) (simp_all add: blank_step)

lemma blank_unresolved:
  assumes "blank i g"
  shows "getVisibleTexturesAtWinLine (reels g) ! i = Null"
    and "checkWin g = g\<lparr>ui := ui g @ [ShowWinLossMessage ''AZAR!'' False]\<rparr>"
proof -
  have i: "i < length (reels g)" using assms by (simp add: blank_def)
  have "\<forall>s\<in>set (symbols (reels g ! i)).
           \<not> \<bar>y s - Number (CELL_HEIGHT * 1 + CELL_HEIGHT / 2)\<bar> < Number 5"
    using assms by (simp add: blank_def list_all_iff)
  then show "getVisibleTexturesAtWinLine (reels g) ! i = Null"
    and "checkWin g = g\<lparr>ui := ui g @ [ShowWinLossMessage ''AZAR!'' False]\<rparr>"
    using unresolved_loss[OF i] by blast+
qed

lemma short_targets:
  assumes i: "i < length (reels g)" and short: "length results \<le> i"
  shows "scheduled (tweens (spins (startReelSpin results forceWin now g) ! length (spins g)) ! i)"
    and "target (tweens (spins (startReelSpin results forceWin now g) ! length (spins g)) ! i)
           = NaN"
    and "blank i (run evs (ticker (animate (length (spins g)) i t
                                     (startReelSpin results forceWin now g))))"
proof -
  let ?g1 = "startReelSpin results forceWin now g"
  let ?c = "length (spins g)"
  note f = startReelSpin_fields[where results = results and forceWin = forceWin and now = now
      and g = g]
  show sch: "scheduled (tweens (spins ?g1 ! ?c) ! i)"
    using i by (simp add: f(9))
  show nan: "target (tweens (spins ?g1 ! ?c) ! i) = NaN"
    using i short by (simp add: f(9) spinTarget_short)
  have reg: "registered ?c i ?g1"
    using i sch by (simp add: registered_def f(1) f(2) f(8))
  have "position (reels (animate ?c i t ?g1) ! i) = NaN"
    using reg nan by (rule animate_NaN)
  moreover have "i < length (reels (animate ?c i t ?g1))"
    using i by (simp add: f(1))
  ultimately have "blank i (ticker (animate ?c i t ?g1))"
    by (intro ticker_blank) simp_all
  then show "blank i (run evs (ticker (animate ?c i t ?g1)))"
    by (rule blank_run)
qed

text \<open>
  C9 as the code has it. When no symbol of reel \<open>i\<close> has its offset within the tolerance
  of 5 pixels around the centre line, the sampler yields \<open>null\<close> for that reel and
  \<open>checkWin\<close> reports the ordinary loss result, leaving the balance alone; no error is
  signalled. A target list of another length than the reel list is accepted. A reel \<open>j\<close>
  without a target gets a registered tween with the target NaN; after the first callback
  of that tween and the next ticker step, and after any further callbacks, all symbol
  offsets of the reel are NaN, so that its centre symbol is unresolvable and \<open>checkWin\<close>
  reports the ordinary loss result. Surplus targets are ignored: the reels get the same
  tweens as with the list cut to the number of reels.
\<close>

theorem unresolved_centre_reports_loss:
  "(i < length (reels g)
      \<and> list_all (\<lambda>s. \<not> \<bar>y s - Number (CELL_HEIGHT * 1 + CELL_HEIGHT / 2)\<bar> < Number 5)
            (symbols (reels g ! i)) \<longrightarrow>
        getVisibleTexturesAtWinLine (reels g) ! i = Null
      \<and> checkWin g = g\<lparr>ui := ui g @ [ShowWinLossMessage ''AZAR!'' False]\<rparr>)
   \<and> (j < length (reels h) \<and> length short \<le> j \<longrightarrow>
        (let h1 = startReelSpin short forceWin now h;
             H = run evs (ticker (animate (length (spins h)) j t h1))
         in scheduled (tweens (spins h1 ! length (spins h)) ! j)
          \<and> target (tweens (spins h1 ! length (spins h)) ! j) = NaN
          \<and> list_all (\<lambda>s. y s = NaN) (symbols (reels H ! j))
          \<and> getVisibleTexturesAtWinLine (reels H) ! j = Null
          \<and> checkWin H = H\<lparr>ui := ui H @ [ShowWinLossMessage ''AZAR!'' False]\<rparr>))
   \<and> (length (reels h) \<le> length long \<longrightarrow>
        reels (startReelSpin (long @ extra) forceWin now h)
          = reels (startReelSpin long forceWin now h)
      \<and> tweens (spins (startReelSpin (long @ extra) forceWin now h) ! length (spins h))
          = tweens (spins (startReelSpin long forceWin now h) ! length (spins h)))"
proof (intro conjI impI)
  assume a: "i < length (reels g)
      \<and> list_all (\<lambda>s. \<not> \<bar>y s - Number (CELL_HEIGHT * 1 + CELL_HEIGHT / 2)\<bar> < Number 5)
            (symbols (reels g ! i))"
  then have i: "i < length (reels g)"
    and far: "\<forall>s\<in>set (symbols (reels g ! i)).
                \<not> \<bar>y s - Number (CELL_HEIGHT * 1 + CELL_HEIGHT / 2)\<bar> < Number 5"
    by (simp_all add: list_all_iff)
  show "getVisibleTexturesAtWinLine (reels g) ! i = Null"
    using i far by (rule unresolved_loss(1))
  show "checkWin g = g\<lparr>ui := ui g @ [ShowWinLossMessage ''AZAR!'' False]\<rparr>"
    using i far by (rule unresolved_loss(2))
next
  assume b: "j < length (reels h) \<and> length short \<le> j"
  then have j: "j < length (reels h)" and short: "length short \<le> j" by simp_all
  note s = short_targets[OF j short, where forceWin = forceWin and now = now]
  have bl: "blank j (run evs (ticker (animate (length (spins h)) j t
                                       (startReelSpin short forceWin now h))))"
    by (rule s(3))
  show "let h1 = startReelSpin short forceWin now h;
            H = run evs (ticker (animate (length (spins h)) j t h1))
        in scheduled (tweens (spins h1 ! length (spins h)) ! j)
         \<and> target (tweens (spins h1 ! length (spins h)) ! j) = NaN
         \<and> list_all (\<lambda>s. y s = NaN) (symbols (reels H ! j))
         \<and> getVisibleTexturesAtWinLine (reels H) ! j = Null
         \<and> checkWin H = H\<lparr>ui := ui H @ [ShowWinLossMessage ''AZAR!'' False]\<rparr>"
    unfolding Let_def
    using s(1) s(2) bl blank_unresolved[OF bl] by (simp add: blank_def)
next
  assume c: "length (reels h) \<le> length long"
  show "reels (startReelSpin (long @ extra) forceWin now h)
          = reels (startReelSpin long forceWin now h)"
    using c by (rule surplus_targets(1))
  show "tweens (spins (startReelSpin (long @ extra) forceWin now h) ! length (spins h))
          = tweens (spins (startReelSpin long forceWin now h) ! length (spins h))"
    using c by (rule surplus_targets(2))
qed

theorem unresolved_centre_reports_loss_witness:
  "0 < length (reels (run [Animate 0 0 1000, Ticker] spinningGame))
   \<and> list_all (\<lambda>s. \<not> \<bar>y s - Number (CELL_HEIGHT * 1 + CELL_HEIGHT / 2)\<bar> < Number 5)
       (symbols (reels (run [Animate 0 0 1000, Ticker] spinningGame) ! 0))
   \<and> getVisibleTexturesAtWinLine (reels (run [Animate 0 0 1000, Ticker] spinningGame)) ! 0 = Null
   \<and> checkWin (run [Animate 0 0 1000, Ticker] spinningGame) =
       (run [Animate 0 0 1000, Ticker] spinningGame)
         \<lparr>ui := ui (run [Animate 0 0 1000, Ticker] spinningGame)
                  @ [ShowWinLossMessage ''AZAR!'' False]\<rparr>
   \<and> 2 < length (reels freshGame) \<and> length [1, 2 :: nat] \<le> 2
   \<and> scheduled (tweens (spins shortGame ! 0) ! 2)
   \<and> target (tweens (spins shortGame ! 0) ! 2) = NaN
   \<and> list_all (\<lambda>s. y s = NaN) (symbols (reels (ticker (animate 0 2 100 shortGame)) ! 2))
   \<and> getVisibleTexturesAtWinLine (reels (ticker (animate 0 2 100 shortGame))) ! 2 = Null
   \<and> length (reels freshGame) \<le> length [1, 2, 3 :: nat]
   \<and> tweens (spins (startReelSpin ([1, 2, 3] @ [4]) False (\<lambda>i. 0) freshGame) ! 0)
       = tweens (spins startedGame ! 0)"
proof -
  let ?G = "run [Animate 0 0 1000, Ticker] spinningGame"
  have len: "length (reels ?G) = 3"
    by (simp add: eval_defs)
  have a: "0 < length (reels ?G)
       \<and> list_all (\<lambda>s. \<not> \<bar>y s - Number (CELL_HEIGHT * 1 + CELL_HEIGHT / 2)\<bar> < Number 5)
           (symbols (reels ?G ! 0))"
    by (simp add: eval_defs)
  have f: "length (reels freshGame) = 3" "length (spins freshGame) = 0"
    by (simp_all add: freshGame_def initSlotGame_def)
  have b: "2 < length (reels freshGame) \<and> length [1, 2 :: nat] \<le> 2"
    unfolding f by simp
  have c: "length (reels freshGame) \<le> length [1, 2, 3 :: nat]"
    unfolding f by simp
  note inst = unresolved_centre_reports_loss[where i = 0 and g = ?G and j = 2 and h = freshGame
      and short = "[1, 2]" and forceWin = False and now = "\<lambda>i. 0" and evs = "[]" and t = 100
      and long = "[1, 2, 3]" and extra = "[4]"]
  from inst a have "getVisibleTexturesAtWinLine (reels ?G) ! 0 = Null
      \<and> checkWin ?G = ?G\<lparr>ui := ui ?G @ [ShowWinLossMessage ''AZAR!'' False]\<rparr>"
    by blast
  moreover from inst b have "scheduled (tweens (spins shortGame ! 0) ! 2)
      \<and> target (tweens (spins shortGame ! 0) ! 2) = NaN
      \<and> list_all (\<lambda>s. y s = NaN) (symbols (reels (ticker (animate 0 2 100 shortGame)) ! 2))
      \<and> getVisibleTexturesAtWinLine (reels (ticker (animate 0 2 100 shortGame))) ! 2 = Null"
    unfolding Let_def f shortGame_def by simp
  moreover from inst c have
    "tweens (spins (startReelSpin ([1, 2, 3] @ [4]) False (\<lambda>i. 0) freshGame) ! 0)
       = tweens (spins startedGame ! 0)"
    unfolding f startedGame_def by blast
  ultimately show ?thesis
    using a b c by blast
qed

text \<open>
  C9 as stated fails. In the run with a stalled frame no symbol of reel 0 is within the
  tolerance of the centre line when the spin ends, and the session reports an ordinary
  loss. With two targets for the three reels \<open>startReelSpin\<close> gives the third reel the
  target NaN; in the smooth run the promise is resolved once, as for any spin, and the
  sampler yields \<open>null\<close> for the third reel.
\<close>

theorem invariant_violation_counterexample:
  "list_all (\<lambda>s. \<not> \<bar>y s - Number (CELL_HEIGHT * 1 + CELL_HEIGHT / 2)\<bar> < Number 5)
     (symbols (reels (run jankyRun spinningGame) ! 0))
   \<and> getVisibleTexturesAtWinLine (reels (run jankyRun spinningGame)) = [Null, Obj 2, Obj 2]
   \<and> ui (run jankyRun spinningGame) =
       [UpdateBalanceDisplay 1000, UpdateBalanceDisplay 900, SetSpinButtonsEnabled False,
        HideWinLossMessage, ShowWinLossMessage ''AZAR!'' False, SetSpinButtonsEnabled True]
   \<and> balance (run jankyRun spinningGame) = 900
   \<and> length (sp_results (spins shortGame ! 0)) = 2 \<and> length (reels shortGame) = 3
   \<and> target (tweens (spins shortGame ! 0) ! 2) = NaN
   \<and> resolved (spins (run smoothRun shortGame) ! 0) = 1
   \<and> getVisibleTexturesAtWinLine (reels (run smoothRun shortGame)) = [Obj 2, Obj 3, Null]"
  by (simp add: eval_defs)

section \<open>Aligned reels\<close>

lemma near_multiple_iff:
  fixes off eps :: rat
  assumes "eps < 1000"
  shows "\<bar>off - 2000 * of_int (round (off / 2000))\<bar> \<le> eps
         \<longleftrightarrow> (\<exists>k::int. \<bar>off - 2000 * of_int k\<bar> \<le> eps)"
proof
  assume "\<bar>off - 2000 * of_int (round (off / 2000))\<bar> \<le> eps"
  then show "\<exists>k::int. \<bar>off - 2000 * of_int k\<bar> \<le> eps" by blast
next
  assume "\<exists>k::int. \<bar>off - 2000 * of_int k\<bar> \<le> eps"
  then obtain k :: int where k: "\<bar>off - 2000 * of_int k\<bar> \<le> eps" by blast
  then have b: "off - 2000 * of_int k < 1000" "- 1000 < off - 2000 * of_int k"
    using assms by (simp_all add: abs_le_iff)
  have "round (off / 2000) = k"
  proof (rule round_unique)
    show "off / 2000 - 1 / 2 < of_int k" using b(1) by (simp add: field_simps)
    show "of_int k \<le> off / 2000 + 1 / 2" using b(2) by (simp add: field_simps)
  qed
  then show "\<bar>off - 2000 * of_int (round (off / 2000))\<bar> \<le> eps" using k by simp
qed

lemma slotAligned_iff:
  assumes "eps < 1000"
  shows "slotAligned eps r j \<longleftrightarrow>
     (\<exists>v p. y (symbols r ! j) = Number v \<and> previousPosition r = Number p
        \<and> - 1300 \<le> v \<and> v \<le> 1900
        \<and> (\<exists>k::int. \<bar>v - (of_nat j * 200 + 100) - p - 2000 * of_int k\<bar> \<le> eps))"
  by (cases "y (symbols r ! j)"; cases "previousPosition r")
     (simp_all add: slotAligned_def Let_def near_multiple_iff[OF assms])

lemma aligned_iff:
  "aligned eps r \<longleftrightarrow> length (symbols r) = 10 \<and> (\<forall>j<10. slotAligned eps r j)"
  by (auto simp: aligned_def list_all_iff)

lemma slotAligned_frame:
  "slotAligned eps (r\<lparr>position := p\<rparr>) = slotAligned eps r"
  "slotAligned eps (r\<lparr>spinTween := v\<rparr>) = slotAligned eps r"
  by (rule ext, simp add: slotAligned_def split: jsnum.splits)+

lemma aligned_position [simp]: "aligned eps (r\<lparr>position := p\<rparr>) = aligned eps r"
  by (simp add: aligned_def slotAligned_frame)

lemma aligned_spinTween [simp]: "aligned eps (r\<lparr>spinTween := v\<rparr>) = aligned eps r"
  by (simp add: aligned_def slotAligned_frame)

text \<open>A ticker step keeps a reel aligned, whatever its \<open>spinTween\<close> holds.\<close>

lemma tickReel_aligned:
  assumes al: "aligned eps r" and eps: "eps < 1000"
    and sm: "\<bar>position r - previousPosition r\<bar> \<le> Number totalStripHeight"
  shows "aligned eps (fst (tickReel ts rnd r k))"
proof -
  let ?r' = "fst (tickReel ts rnd r k)"
  obtain P p where P: "position r = Number P" and p: "previousPosition r = Number p"
    using sm by (cases "position r"; cases "previousPosition r") simp_all
  have d: "- 2000 \<le> P - p" "P - p \<le> 2000"
    using sm by (simp_all add: P p abs_le_iff)
  have len: "length (symbols r) = 10" using al by (simp add: aligned_iff)
  have pp: "previousPosition ?r' = Number P" by (simp add: P)
  have "slotAligned eps ?r' j" if j: "j < 10" for j
  proof -
    have "slotAligned eps r j" using al j by (simp add: aligned_iff)
    then obtain v and q :: int where
      v: "y (symbols r ! j) = Number v" and lo: "- 1300 \<le> v" and hi: "v \<le> 1900"
      and q: "\<bar>v - (of_nat j * 200 + 100) - p - 2000 * of_int q\<bar> \<le> eps"
      unfolding slotAligned_iff[OF eps] using p by auto
    have jl: "j < length (symbols r)" using j len by simp
    from tickSymbols_nth[OF jl, of k ts rnd "spinTween r" "position r - previousPosition r"]
    obtain m where
      m: "fst (tickSymbols ts rnd (spinTween r) (position r - previousPosition r) (symbols r) k) ! j
           = fst (tickSymbol ts rnd (spinTween r) (position r - previousPosition r)
                    (symbols r ! j) m)"
      by blast
    let ?y1 = "v + (P - p)"
    have y': "y (symbols ?r' ! j) =
        Number (if ?y1 + 100 < 0 then ?y1 + 2000
                else if ?y1 - 100 > 600 then ?y1 - 2000 else ?y1)"
      using m by (simp add: tickSymbol_y v P p)
    consider (top) "?y1 + 100 < 0" | (bottom) "\<not> ?y1 + 100 < 0" "?y1 - 100 > 600"
      | (inside) "\<not> ?y1 + 100 < 0" "\<not> ?y1 - 100 > 600"
      by blast
    then show ?thesis
    proof cases
      case top
      have e: "y (symbols ?r' ! j) = Number (?y1 + 2000)" using y' top by simp
      have "?y1 + 2000 - (of_nat j * 200 + 100) - P - 2000 * of_int (q + 1)
              = v - (of_nat j * 200 + 100) - p - 2000 * of_int q"
        by simp
      then have "\<exists>k::int. \<bar>?y1 + 2000 - (of_nat j * 200 + 100) - P - 2000 * of_int k\<bar> \<le> eps"
        using q by (intro exI[of _ "q + 1"]) (simp only:)
      moreover have "- 1300 \<le> ?y1 + 2000" "?y1 + 2000 \<le> 1900"
        using top lo d by linarith+
      ultimately show ?thesis
        unfolding slotAligned_iff[OF eps] e pp by blast
    next
      case bottom
      have e: "y (symbols ?r' ! j) = Number (?y1 - 2000)" using y' bottom by simp
      have "?y1 - 2000 - (of_nat j * 200 + 100) - P - 2000 * of_int (q - 1)
              = v - (of_nat j * 200 + 100) - p - 2000 * of_int q"
        by simp
      then have "\<exists>k::int. \<bar>?y1 - 2000 - (of_nat j * 200 + 100) - P - 2000 * of_int k\<bar> \<le> eps"
        using q by (intro exI[of _ "q - 1"]) (simp only:)
      moreover have "- 1300 \<le> ?y1 - 2000" "?y1 - 2000 \<le> 1900"
        using bottom hi d by linarith+
      ultimately show ?thesis
        unfolding slotAligned_iff[OF eps] e pp by blast
    next
      case inside
      have e: "y (symbols ?r' ! j) = Number ?y1" using y' inside by simp
      have "?y1 - (of_nat j * 200 + 100) - P - 2000 * of_int q
              = v - (of_nat j * 200 + 100) - p - 2000 * of_int q"
        by simp
      then have "\<exists>k::int. \<bar>?y1 - (of_nat j * 200 + 100) - P - 2000 * of_int k\<bar> \<le> eps"
        using q by (intro exI[of _ q]) (simp only:)
      moreover have "- 1300 \<le> ?y1" "?y1 \<le> 1900"
        using inside by linarith+
      ultimately show ?thesis
        unfolding slotAligned_iff[OF eps] e pp by blast
    qed
  qed
  moreover have "length (symbols ?r') = 10" using len by simp
  ultimately show ?thesis by (simp add: aligned_iff)
qed

section \<open>The centre symbol of an aligned reel\<close>



section \<open>A spin tracked through a run\<close>

lemma tracking_ticker:
  assumes tr: "tracking eps c tgt g" and eps: "eps < 1000"
    and sm: "list_all (\<lambda>r. \<bar>position r - previousPosition r\<bar> \<le> Number totalStripHeight)
               (reels g)"
  shows "tracking eps c tgt (ticker g)"
proof -
  have reel: "aligned eps (reels (ticker g) ! i)
        \<and> position (reels (ticker g) ! i) = position (reels g ! i)"
    if i: "i < length (reels g)" for i
  proof -
    from reels_ticker_nth[OF i] obtain m where
      m: "reels (ticker g) ! i = fst (tickReel (slotTextures g) (random g) (reels g ! i) m)"
      by blast
    have old: "aligned eps (reels g ! i)"
      using tr i by (simp add: tracking_def)
    have "\<bar>position (reels g ! i) - previousPosition (reels g ! i)\<bar> \<le> Number totalStripHeight"
      using sm i by (simp add: list_all_length)
    then have "aligned eps (reels (ticker g) ! i)"
      unfolding m using old eps by (intro tickReel_aligned)
    then show ?thesis
      by (simp add: m)
  qed
  show ?thesis
    using tr reel by (simp add: tracking_def)
qed

lemma tracking_animate:
  assumes tr: "tracking eps c tgt g"
  shows "tracking eps c tgt (animate c' i now g)"
proof (cases "registered c' i g")
  case False
  then show ?thesis using tr by (simp add: animate_idle)
next
  case reg: True
  then have i: "i < length (reels g)" and c': "c' < length (spins g)"
    and il: "i < length (tweens (spins g ! c'))" and sch: "scheduled (tweens (spins g ! c') ! i)"
    by (simp_all add: registered_def)
  have cc: "c' = c"
  proof (rule ccontr)
    assume "c' \<noteq> c"
    then have "c' < c" using c' tr by (simp add: tracking_def)
    then have "list_all (\<lambda>tw. \<not> scheduled tw) (tweens (spins g ! c'))"
      using tr by (simp add: tracking_def)
    then show False using il sch by (simp add: list_all_length)
  qed
  have regc: "registered c i g" using reg cc by simp
  have schc: "scheduled (tweens (spins g ! c) ! i)" using sch cc by simp
  have ilc: "i < length (tweens (spins g ! c))" using il cc by simp
  have cl: "c < length (spins g)" using c' cc by simp
  have "tracking eps c tgt (animate c i now g)"
  proof (cases "now < endTime (tweens (spins g ! c) ! i)")
    case True
    show ?thesis
      using tr i schc
      by (auto simp: animate_moving[OF regc True] tracking_def nth_list_update)
  next
    case False
    have fw: "\<not> sp_forceWin (spins g ! c)" using tr by (simp add: tracking_def)
    show ?thesis
      using tr i cl ilc schc fw
      by (auto simp: animate_done[OF regc False] tracking_def nth_list_update
            reels_onComplete spins_onComplete)
  qed
  then show ?thesis using cc by simp
qed

lemma tracking_run:
  "tracking eps c tgt g \<Longrightarrow> eps < 1000 \<Longrightarrow> smooth evs g \<Longrightarrow> tracking eps c tgt (run evs g)"
proof (induction evs arbitrary: g)
  case Nil
  then show ?case by simp
next
  case (Cons e evs)
  have "tracking eps c tgt (step e g)"
  proof (cases e)
    case Ticker
    then show ?thesis using Cons.prems by (simp add: tracking_ticker)
  next
    case (Animate c' i now)
    then show ?thesis using Cons.prems(1) by (simp add: tracking_animate)
  qed
  then show ?case using Cons.IH Cons.prems(2,3) by simp
qed

lemma tracking_start:
  assumes st: "settled eps g"
  shows "tracking eps (length (spins g))
           (\<lambda>i. spinTarget (position (reels g ! i)) results i)
           (startReelSpin results False now g)"
proof -
  note f = startReelSpin_fields[where results = results and forceWin = False and now = now
      and g = g]
  have old: "\<forall>c'<length (spins g). list_all (\<lambda>tw. \<not> scheduled tw) (tweens (spins g ! c'))"
    using st by (simp add: settled_def list_all_length)
  have rs: "\<forall>i<length (reels g). aligned eps (reels g ! i)"
    using st by (simp add: settled_def list_all_length)
  show ?thesis
    unfolding tracking_def
    using old rs f(2) f(3) f(4) f(8) f(9) by (simp add: f(1))
qed

lemma tracked:
  assumes "settled eps g" and "eps < 1000" and "smooth evs (startReelSpin results False now g)"
  shows "tracking eps (length (spins g))
           (\<lambda>i. spinTarget (position (reels g ! i)) results i)
           (run evs (startReelSpin results False now g))"
  using tracking_start[OF assms(1)] assms(2,3) by (rule tracking_run)


text \<open>After such a spin with a target for every reel the game is settled again.\<close>

lemma settled_after_spin:
  assumes st: "settled eps g" and eps: "eps < 1000"
    and sm: "smooth evs (startReelSpin results False now g)"
    and fin: "list_all (\<lambda>tw. \<not> scheduled tw)
                 (tweens (spins (run evs (startReelSpin results False now g))
                            ! length (spins g)))"
    and le: "length (reels g) \<le> length results"
  shows "settled eps (run evs (startReelSpin results False now g))"
proof -
  let ?G = "run evs (startReelSpin results False now g)"
  note tr = tracked[OF st eps sm]
  have len: "length (reels ?G) = length (reels g)"
    by (simp add: startReelSpin_fields(1))
  have reel: "aligned eps (reels ?G ! i) \<and> position (reels ?G ! i) \<noteq> NaN"
    if i: "i < length (reels g)" for i
  proof -
    have al: "aligned eps (reels ?G ! i)"
      and tl: "length (tweens (spins ?G ! length (spins g))) = length (reels g)"
      and stop: "\<not> scheduled (tweens (spins ?G ! length (spins g)) ! i) \<longrightarrow>
           position (reels ?G ! i) = spinTarget (position (reels g ! i)) results i"
      using tr i len unfolding tracking_def by simp_all
    have "\<not> scheduled (tweens (spins ?G ! length (spins g)) ! i)"
      using fin i tl by (simp add: list_all_length)
    then have pos: "position (reels ?G ! i) = spinTarget (position (reels g ! i)) results i"
      using stop by blast
    have "position (reels g ! i) \<noteq> NaN"
      using st i by (simp add: settled_def list_all_length)
    then have "spinTarget (position (reels g ! i)) results i \<noteq> NaN"
      using le i by (cases "position (reels g ! i)") (simp_all add: spinTarget_Number)
    then show ?thesis using al pos by simp
  qed
  have "list_all (\<lambda>tw. \<not> scheduled tw) (tweens (spins ?G ! c))" if c: "c < length (spins ?G)" for c
  proof (cases "c = length (spins g)")
    case True
    then show ?thesis using fin by simp
  next
    case False
    then have "c < length (spins g)" using c tr by (simp add: tracking_def)
    then show ?thesis using tr by (simp add: tracking_def)
  qed
  then show ?thesis
    using reel len by (simp add: settled_def list_all_length)
qed

section \<open>A smooth sample spin\<close>








end
